theory Spec2Isabelle
  imports Complex_Main
begin

section \<open>Cold-pool detection on time series: embedding of cp_detection_timeseries.py\<close>

text \<open>
  The module holds one class, \<open>cp_detection\<close>. Its constructor validates the inputs and
  runs the detection loop once; the remaining methods are read-only queries on the
  attributes the constructor has set.

  Modelling decisions.
  \<^item> A sample of a numpy float array is an \<open>npfloat\<close>: an exact real, one of the two
    infinities, or NaN. Rounding of float64 arithmetic is not modelled; the special values
    are, because \<open>np.isfinite\<close>, the comparisons and \<open>np.sum\<close> treat them specially.
  \<^item> The keyword arguments of the constructor are reals and booleans (record \<open>options\<close>).
  \<^item> Indices are Python integers (\<open>int\<close>); a slice is a pair (start, stop).
  \<^item> An exception is a value \<open>Inl e\<close>; \<open>print\<close> is a list of diagnostics returned
    next to the result (kind and label of the message, not its formatted numbers).
  \<^item> An attribute that is assigned only inside \<open>if check_all:\<close> is an \<open>option\<close> field
    of the engine record; reading it while it is \<open>None\<close> is Python's AttributeError.
  \<^item> pandas is not part of the module. Of the time grid only what the constructor reads
    is kept: whether it is a \<open>DatetimeIndex\<close>, its length, and, when \<open>inferred_freq\<close>
    is not None, the \<open>seconds\<close> field of the first time difference.
\<close>

subsection \<open>Float samples\<close>

datatype npfloat = Fin real | PInf | NInf | NaN

fun isfinite :: "npfloat \<Rightarrow> bool" where
  "isfinite (Fin _) = True"
| "isfinite _ = False"

fun fneg :: "npfloat \<Rightarrow> npfloat" where
  "fneg (Fin a) = Fin (- a)"
| "fneg PInf = NInf"
| "fneg NInf = PInf"
| "fneg NaN = NaN"

fun fadd :: "npfloat \<Rightarrow> npfloat \<Rightarrow> npfloat" where
  "fadd (Fin a) (Fin b) = Fin (a + b)"
| "fadd (Fin a) PInf = PInf"
| "fadd (Fin a) NInf = NInf"
| "fadd PInf (Fin b) = PInf"
| "fadd PInf PInf = PInf"
| "fadd PInf NInf = NaN"
| "fadd NInf (Fin b) = NInf"
| "fadd NInf NInf = NInf"
| "fadd NInf PInf = NaN"
| "fadd NaN _ = NaN"
| "fadd _ NaN = NaN"

definition fsub :: "npfloat \<Rightarrow> npfloat \<Rightarrow> npfloat" where
  "fsub a b = fadd a (fneg b)"

text \<open>\<open>a <= b\<close> on floats: every comparison with NaN is false.\<close>

fun fle :: "npfloat \<Rightarrow> npfloat \<Rightarrow> bool" where
  "fle (Fin a) (Fin b) = (a \<le> b)"
| "fle (Fin a) PInf = True"
| "fle (Fin a) NInf = False"
| "fle (Fin a) NaN = False"
| "fle PInf PInf = True"
| "fle PInf _ = False"
| "fle NInf NaN = False"
| "fle NInf _ = True"
| "fle NaN _ = False"

text \<open>\<open>a == b\<close> on floats: NaN is equal to nothing, itself included.\<close>

definition feq :: "npfloat \<Rightarrow> npfloat \<Rightarrow> bool" where
  "feq a b = (a \<noteq> NaN \<and> a = b)"

text \<open>\<open>a < b\<close> on floats.\<close>

definition flt :: "npfloat \<Rightarrow> npfloat \<Rightarrow> bool" where
  "flt a b = (fle a b \<and> \<not> feq a b)"

text \<open>\<open>np.sum\<close> of a one-dimensional array; the sum of no element is 0.\<close>

definition np_sum :: "npfloat list \<Rightarrow> npfloat" where
  "np_sum xs = foldl fadd (Fin 0) xs"

subsection \<open>Python indexing and numpy helpers\<close>

datatype error = AttributeError | IndexError | ZeroDivisionError | ValueError | UnboundLocalError

text \<open>A slice bound is clipped to the array: a negative bound counts from the end.\<close>

definition slice_bound :: "int \<Rightarrow> nat \<Rightarrow> nat" where
  "slice_bound i n = (if i < 0 then nat (max (i + int n) 0) else min (nat i) n)"

definition py_slice :: "'a list \<Rightarrow> int \<Rightarrow> int \<Rightarrow> 'a list" where
  "py_slice xs start stop =
     (let a = slice_bound start (length xs); b = slice_bound stop (length xs)
      in take (b - a) (drop a xs))"

text \<open>\<open>xs[i]\<close> for an integer \<open>i\<close>.\<close>

definition py_get :: "'a list \<Rightarrow> int \<Rightarrow> error + 'a" where
  "py_get xs i =
     (let n = int (length xs); j = (if i < 0 then i + n else i)
      in if 0 \<le> j \<and> j < n then Inr (xs ! nat j) else Inl IndexError)"

text \<open>\<open>np.where(mask)[0]\<close>: the positions at which the mask is true, ascending.\<close>

definition np_where :: "bool list \<Rightarrow> int list" where
  "np_where bs = map int (filter (\<lambda>i. bs ! i) [0..<length bs])"

text \<open>\<open>int(x)\<close> of a float truncates towards zero.\<close>

definition py_int :: "real \<Rightarrow> int" where
  "py_int x = (if 0 \<le> x then \<lfloor>x\<rfloor> else \<lceil>x\<rceil>)"

subsection \<open>Period slices and availability\<close>

text \<open>
  \<open>_index_cp\<close>, with \<open>self.npre\<close> and \<open>self.npost\<close> as arguments. A period name other
  than the three known ones falls through every \<open>if\<close> and the method returns None.
\<close>

definition index_cp :: "int \<Rightarrow> int \<Rightarrow> int \<Rightarrow> string \<Rightarrow> (int \<times> int) option" where
  "index_cp npre npost index_cp_arg period =
     (let ipre = index_cp_arg - npre; ipost = index_cp_arg + npost + 1
      in if period = ''pre'' then Some (ipre, index_cp_arg + 1)
         else if period = ''post'' then Some (index_cp_arg + 1, ipost)
         else if period = ''all'' then Some (ipre, ipost)
         else None)"

datatype diag =
    NotDatetimeIndex
  | NoRegularGrid
  | LengthMismatch string
  | ResolutionTooLow string
  | AvailabilityWarning string
  | FunctionNotAvailable string
  | PeriodNotAvailable string

text \<open>
  \<open>_check_data_avail\<close>. The ratio of an empty array is 0/0, which numpy evaluates to
  NaN (with a warning, not an exception), and NaN is not \<open>>= threshold\<close>.
\<close>

definition avail_ok :: "npfloat list \<Rightarrow> real \<Rightarrow> bool" where
  "avail_ok indata threshold =
     (indata \<noteq> [] \<and> real (length (filter isfinite indata)) / real (length indata) \<ge> threshold)"

definition check_data_avail :: "npfloat list \<Rightarrow> real \<Rightarrow> bool \<Rightarrow> string \<Rightarrow> bool \<times> diag list" where
  "check_data_avail indata threshold warn warnstr =
     (if avail_ok indata threshold then (True, [])
      else (False, if warn then [AvailabilityWarning warnstr] else []))"

text \<open>\<open>_check_data_len\<close>, for an argument that has a \<open>shape\<close>.\<close>

definition check_data_len :: "int \<Rightarrow> 'a list \<Rightarrow> string \<Rightarrow> bool \<times> diag list" where
  "check_data_len ntime indata varstr =
     (if int (length indata) = ntime then (True, [])
      else (False, if ntime \<noteq> - 1 then [LengthMismatch varstr] else []))"

subsection \<open>The detection loop\<close>

text \<open>The local variables the loop body reads and never changes.\<close>

record scan =
  s_ttdata :: "npfloat list"
  s_rrdata :: "npfloat list"
  s_ntime :: int
  s_ntt :: int
  s_npre :: int
  s_npost :: int
  s_d_tt_p :: real
  s_data_avail_cp :: real

text \<open>
  Raw candidates: \<open>np.where((ttdata[ntt:] - ttdata[:-ntt]) <= d_tt)[0]\<close>. The two
  slices have the same length, so the subtraction is element by element.
\<close>

definition t_ttlim :: "npfloat list \<Rightarrow> int \<Rightarrow> real \<Rightarrow> int list" where
  "t_ttlim ttdata ntt d_tt =
     np_where (map (\<lambda>(a, b). fle (fsub a b) (Fin d_tt))
                 (zip (py_slice ttdata ntt (int (length ttdata))) (py_slice ttdata 0 (- ntt))))"

text \<open>
  Lines 129 to 132: the passage index of candidate \<open>t\<close>. \<open>np.where(...)[0][0]\<close> raises
  IndexError when no sample of the window is at or below \<open>tt_p\<close>.
\<close>

definition refine_passage :: "npfloat list \<Rightarrow> int \<Rightarrow> real \<Rightarrow> int \<Rightarrow> error + int" where
  "refine_passage ttdata ntt d_tt_p t =
     (case py_get ttdata t of
        Inl e \<Rightarrow> Inl e
      | Inr tt0 \<Rightarrow>
          (let tt_p = fadd tt0 (Fin d_tt_p)
           in case np_where (map (\<lambda>x. fle x tt_p) (py_slice ttdata t (t + ntt + 1))) of
                [] \<Rightarrow> Inl IndexError
              | j # _ \<Rightarrow> Inr (j + t - 1)))"

text \<open>
  One pass of the loop body for candidate \<open>t\<close>: \<open>Inr None\<close> is \<open>continue\<close>,
  \<open>Inr (Some icp)\<close> reaches the last two lines of the body with passage index \<open>icp\<close>.
  \<open>_index_cp\<close> returns a slice for the period names "post" and "all"; reading
  \<open>.start\<close> of the None it returns for any other name would be an AttributeError.
\<close>

definition examine :: "scan \<Rightarrow> int \<Rightarrow> int \<Rightarrow> error + int option" where
  "examine S icp_prev t =
     (if t - icp_prev \<le> s_npost S then Inr None
      else case refine_passage (s_ttdata S) (s_ntt S) (s_d_tt_p S) t of
        Inl e \<Rightarrow> Inl e
      | Inr icp \<Rightarrow>
          (case (index_cp (s_npre S) (s_npost S) icp ''post'',
                 index_cp (s_npre S) (s_npost S) icp ''all'') of
             (Some slc_post, Some slc_all) \<Rightarrow>
               if fst slc_all < 0 \<or> snd slc_all > s_ntime S then Inr None
               else
                 let check_avail_tt = fst (check_data_avail
                       (py_slice (s_ttdata S) (fst slc_all) (snd slc_all)) (s_data_avail_cp S) False ''event'');
                     check_avail_rr = fst (check_data_avail
                       (py_slice (s_rrdata S) (fst slc_all) (snd slc_all)) (s_data_avail_cp S) False ''event'')
                 in if \<not> check_avail_tt \<or> \<not> check_avail_rr then Inr None
                    else if feq (np_sum (py_slice (s_rrdata S) (fst slc_post) (snd slc_post))) (Fin 0)
                    then Inr None
                    else Inr (Some icp)
           | _ \<Rightarrow> Inl AttributeError))"

fun detect :: "scan \<Rightarrow> int list \<Rightarrow> int \<Rightarrow> int list \<Rightarrow> error + int list" where
  "detect S [] icp_prev cp_index = Inr cp_index"
| "detect S (t # ts) icp_prev cp_index =
     (case examine S icp_prev t of
        Inl e \<Rightarrow> Inl e
      | Inr None \<Rightarrow> detect S ts icp_prev cp_index
      | Inr (Some icp) \<Rightarrow> detect S ts icp (cp_index @ [icp]))"

subsection \<open>The constructor\<close>

text \<open>
  The time grid as the constructor reads it: not a \<open>DatetimeIndex\<close>, or a
  \<open>DatetimeIndex\<close> with its length and, when \<open>inferred_freq\<close> is not None, the
  \<open>seconds\<close> field of \<open>dtdata[1] - dtdata[0]\<close>.
\<close>

datatype dtdata = NoDatetimeIndex | DatetimeIndex nat "nat option"

record options =
  d_tt :: real
  d_time :: real
  time_pre :: real
  time_post :: real
  d_tt_p :: real
  arg_data_avail_cp :: real
  arg_data_avail_all :: real
  arg_warn_avail_cp :: bool
  arg_warn_avail_all :: bool

text \<open>The module-level defaults of the keyword arguments.\<close>

definition default_options :: options where
  "default_options =
     \<lparr>d_tt = - 2, d_time = 20, time_pre = 30, time_post = 60, d_tt_p = - 1 / 2,
      arg_data_avail_cp = 1, arg_data_avail_all = 9 / 10,
      arg_warn_avail_cp = True, arg_warn_avail_all = True\<rparr>"

text \<open>
  The object. The six attributes assigned inside \<open>if check_all:\<close> exist only when
  that branch ran. A cold-pool time stamp \<open>dtdata[i]\<close> is represented by its position
  \<open>i\<close>, so \<open>cp_datetime\<close> is the list of positions.
\<close>

record engine =
  ntime :: int
  data_avail_cp :: "real option"
  data_avail_all :: "real option"
  warn_avail_cp :: "bool option"
  warn_avail_all :: "bool option"
  npre :: "int option"
  npost :: "int option"
  dtdata :: dtdata
  ttdata :: "npfloat list"
  rrdata :: "npfloat list"
  cp_index :: "int list"
  cp_datetime :: "int list"
  ncp :: nat

definition resolution_diags :: "int \<Rightarrow> int \<Rightarrow> int \<Rightarrow> diag list" where
  "resolution_diags ntt npre_v npost_v =
     (if ntt \<le> 0 then [ResolutionTooLow ''d_time''] else []) @
     (if npre_v \<le> 0 then [ResolutionTooLow ''time_pre''] else []) @
     (if npost_v \<le> 0 then [ResolutionTooLow ''time_post''] else [])"

text \<open>
  \<open>__init__\<close>. The local \<open>tres\<close> is bound exactly when \<open>check_tres\<close> is true, so
  the branch for an unbound \<open>tres\<close> under \<open>check_all\<close> is never taken. A grid whose
  step is a whole number of days has \<open>seconds = 0\<close>, and \<open>d_time / tres\<close> raises
  ZeroDivisionError.
\<close>

definition cp_detection_init ::
  "dtdata \<Rightarrow> npfloat list \<Rightarrow> npfloat list \<Rightarrow> options \<Rightarrow> error + (engine \<times> diag list)" where
  "cp_detection_init dt tt rr opts =
     (let check_dt = (dt \<noteq> NoDatetimeIndex);
          tres = (case dt of DatetimeIndex _ (Some secs) \<Rightarrow> Some (real secs / 60) | _ \<Rightarrow> None);
          check_tres = (case dt of DatetimeIndex _ (Some _) \<Rightarrow> True | _ \<Rightarrow> False);
          out_dt = (case dt of NoDatetimeIndex \<Rightarrow> [NotDatetimeIndex]
                    | DatetimeIndex _ None \<Rightarrow> [NoRegularGrid]
                    | DatetimeIndex _ (Some _) \<Rightarrow> []);
          ntime_v = (case dt of DatetimeIndex n _ \<Rightarrow> int n | NoDatetimeIndex \<Rightarrow> - 1);
          check_len_tt = check_data_len ntime_v tt ''TT'';
          check_len_rr = check_data_len ntime_v rr ''RR'';
          check_all = (check_dt \<and> check_tres \<and> fst check_len_tt \<and> fst check_len_rr);
          out_len = out_dt @ snd check_len_tt @ snd check_len_rr
      in if check_all then
           (case tres of
              None \<Rightarrow> Inl UnboundLocalError
            | Some tr \<Rightarrow>
                let out_avail =
                      snd (check_data_avail tt (arg_data_avail_all opts) (arg_warn_avail_all opts) ''TT'') @
                      snd (check_data_avail rr (arg_data_avail_all opts) (arg_warn_avail_all opts) ''RR'')
                in if tr = 0 then Inl ZeroDivisionError
                   else
                     let ntt = py_int (d_time opts / tr);
                         npre_v = py_int (time_pre opts / tr);
                         npost_v = py_int (time_post opts / tr);
                         cands = (if ntt > 0 \<and> npre_v > 0 \<and> npost_v > 0
                                  then t_ttlim tt ntt (d_tt opts) else []);
                         S = \<lparr>s_ttdata = tt, s_rrdata = rr, s_ntime = ntime_v, s_ntt = ntt,
                              s_npre = npre_v, s_npost = npost_v, s_d_tt_p = d_tt_p opts,
                              s_data_avail_cp = arg_data_avail_cp opts\<rparr>
                     in (case detect S cands (- 99999) [] of
                          Inl e \<Rightarrow> Inl e
                        | Inr cps \<Rightarrow>
                            Inr (\<lparr>ntime = ntime_v,
                                  data_avail_cp = Some (arg_data_avail_cp opts),
                                  data_avail_all = Some (arg_data_avail_all opts),
                                  warn_avail_cp = Some (arg_warn_avail_cp opts),
                                  warn_avail_all = Some (arg_warn_avail_all opts),
                                  npre = Some npre_v, npost = Some npost_v,
                                  dtdata = dt, ttdata = tt, rrdata = rr,
                                  cp_index = cps, cp_datetime = cps, ncp = length cps\<rparr>,
                                 out_len @ out_avail @ resolution_diags ntt npre_v npost_v)))
         else
           Inr (\<lparr>ntime = ntime_v,
                 data_avail_cp = None, data_avail_all = None,
                 warn_avail_cp = None, warn_avail_all = None,
                 npre = None, npost = None,
                 dtdata = dt, ttdata = tt, rrdata = rr,
                 cp_index = [], cp_datetime = [], ncp = 0\<rparr>,
                out_len))"

definition number :: "engine \<Rightarrow> nat" where
  "number self = ncp self"

definition indices :: "engine \<Rightarrow> int list" where
  "indices self = cp_index self"

subsection \<open>Tables of per-event data\<close>

text \<open>
  A pandas \<open>DataFrame\<close> as the module uses it: a row index of integer offsets and
  columns in insertion order, each labelled by the time stamp (position) of its event.
  \<open>pd.DataFrame()\<close> has neither rows nor columns. A reduction of a frame is a
  \<open>Series\<close> with one value per column label.
\<close>

datatype frame = DataFrame (df_index: "int list") (df_columns: "(int \<times> npfloat list) list")

datatype pdval = Frame frame | Series "(int \<times> npfloat) list"

definition df_empty :: "frame \<Rightarrow> bool" where
  "df_empty f = (df_index f = [] \<or> df_columns f = [])"

text \<open>\<open>outdata[label] = values\<close>: an existing column is overwritten in place, a new one
  is appended.\<close>

fun set_column :: "int \<Rightarrow> npfloat list \<Rightarrow> (int \<times> npfloat list) list \<Rightarrow> (int \<times> npfloat list) list" where
  "set_column k v [] = [(k, v)]"
| "set_column k v ((k', v') # cs) = (if k' = k then (k, v) # cs else (k', v') # set_column k v cs)"

text \<open>Rows selected by label, as \<open>.loc[:b]\<close> and \<open>.loc[a:]\<close> do on the ascending
  offset index.\<close>

definition loc_rows :: "(int \<Rightarrow> bool) \<Rightarrow> frame \<Rightarrow> frame" where
  "loc_rows keep f =
     DataFrame (filter keep (df_index f))
       (map (\<lambda>(k, c). (k, map snd (filter (\<lambda>(i, x). keep i) (zip (df_index f) c)))) (df_columns f))"

subsection \<open>Reductions\<close>

text \<open>The pandas reductions skip NaN (\<open>skipna=True\<close>); the infinities are values.\<close>

definition dropna :: "npfloat list \<Rightarrow> npfloat list" where
  "dropna xs = filter (\<lambda>x. x \<noteq> NaN) xs"

fun fdiv_count :: "npfloat \<Rightarrow> nat \<Rightarrow> npfloat" where
  "fdiv_count (Fin a) n = Fin (a / real n)"
| "fdiv_count x n = x"

fun insort_f :: "npfloat \<Rightarrow> npfloat list \<Rightarrow> npfloat list" where
  "insort_f x [] = [x]"
| "insort_f x (y # ys) = (if fle x y then x # y # ys else y # insort_f x ys)"

definition sort_f :: "npfloat list \<Rightarrow> npfloat list" where
  "sort_f xs = foldr insort_f xs []"

definition pd_sum :: "npfloat list \<Rightarrow> npfloat" where
  "pd_sum xs = np_sum (dropna xs)"

definition pd_mean :: "npfloat list \<Rightarrow> npfloat" where
  "pd_mean xs = (let v = dropna xs in if v = [] then NaN else fdiv_count (np_sum v) (length v))"

definition pd_max :: "npfloat list \<Rightarrow> npfloat" where
  "pd_max xs = (let v = dropna xs in if v = [] then NaN else last (sort_f v))"

definition pd_min :: "npfloat list \<Rightarrow> npfloat" where
  "pd_min xs = (let v = dropna xs in if v = [] then NaN else hd (sort_f v))"

definition pd_median :: "npfloat list \<Rightarrow> npfloat" where
  "pd_median xs =
     (let v = sort_f (dropna xs); n = length v
      in if n = 0 then NaN
         else if odd n then v ! (n div 2)
         else fdiv_count (fadd (v ! (n div 2 - 1)) (v ! (n div 2))) 2)"

definition funcavail :: "string list" where
  "funcavail = [''median'', ''mean'', ''max'', ''min'', ''sum'', ''first'', ''last'']"

definition reduce_columns :: "(npfloat list \<Rightarrow> npfloat) \<Rightarrow> frame \<Rightarrow> pdval" where
  "reduce_columns g f = Series (map (\<lambda>(k, c). (k, g c)) (df_columns f))"

text \<open>\<open>_calc_val\<close>. \<open>iloc[0]\<close> and \<open>iloc[-1]\<close> raise IndexError on a frame with no row.\<close>

definition calc_val :: "frame \<Rightarrow> string \<Rightarrow> error + (pdval \<times> diag list)" where
  "calc_val eventdata funcstr =
     (if funcstr \<notin> set funcavail
      then Inr (Frame (DataFrame [] []), [FunctionNotAvailable funcstr])
      else if funcstr = ''median'' then Inr (reduce_columns pd_median eventdata, [])
      else if funcstr = ''mean'' then Inr (reduce_columns pd_mean eventdata, [])
      else if funcstr = ''max'' then Inr (reduce_columns pd_max eventdata, [])
      else if funcstr = ''min'' then Inr (reduce_columns pd_min eventdata, [])
      else if funcstr = ''sum'' then Inr (reduce_columns pd_sum eventdata, [])
      else if funcstr = ''first'' then
        (if df_index eventdata = [] then Inl IndexError
         else Inr (reduce_columns (\<lambda>c. c ! 0) eventdata, []))
      else
        (if df_index eventdata = [] then Inl IndexError
         else Inr (reduce_columns last eventdata, [])))"

subsection \<open>Methods of a constructed object\<close>

text \<open>\<open>_index_cp\<close> as a method: the two attributes are read first.\<close>

definition self_index_cp :: "engine \<Rightarrow> int \<Rightarrow> string \<Rightarrow> error + (int \<times> int) option" where
  "self_index_cp self i period =
     (case (npre self, npost self) of
        (Some a, Some b) \<Rightarrow> Inr (index_cp a b i period)
      | _ \<Rightarrow> Inl AttributeError)"

definition pre_val :: "engine \<Rightarrow> frame \<Rightarrow> string \<Rightarrow> error + (pdval \<times> diag list)" where
  "pre_val self eventdata funcstr =
     (if df_empty eventdata then Inr (Frame eventdata, [])
      else case self_index_cp self 0 ''pre'' of
             Inr (Some slc_pre) \<Rightarrow> calc_val (loc_rows (\<lambda>i. i \<le> snd slc_pre - 1) eventdata) funcstr
           | Inr None \<Rightarrow> Inl AttributeError
           | Inl e \<Rightarrow> Inl e)"

definition post_val :: "engine \<Rightarrow> frame \<Rightarrow> string \<Rightarrow> error + (pdval \<times> diag list)" where
  "post_val self eventdata funcstr =
     (if df_empty eventdata then Inr (Frame eventdata, [])
      else case self_index_cp self 0 ''post'' of
             Inr (Some slc_post) \<Rightarrow> calc_val (loc_rows (\<lambda>i. fst slc_post \<le> i) eventdata) funcstr
           | Inr None \<Rightarrow> Inl AttributeError
           | Inl e \<Rightarrow> Inl e)"

definition all_val :: "engine \<Rightarrow> frame \<Rightarrow> string \<Rightarrow> error + (pdval \<times> diag list)" where
  "all_val self eventdata funcstr =
     (if df_empty eventdata then Inr (Frame eventdata, []) else calc_val eventdata funcstr)"

text \<open>
  One pass of the loop of \<open>var_time\<close>: the column of the event at \<open>icp\<close>. Assigning
  an array whose length is not the number of rows raises ValueError; assigning the scalar
  \<open>np.nan\<close> fills the column.
\<close>

definition var_time_step ::
  "engine \<Rightarrow> npfloat list \<Rightarrow> frame \<times> diag list \<Rightarrow> int \<Rightarrow> error + (frame \<times> diag list)" where
  "var_time_step self indata acc icp =
     (case self_index_cp self icp ''all'' of
        Inl e \<Rightarrow> Inl e
      | Inr None \<Rightarrow> Inl AttributeError
      | Inr (Some slc_all) \<Rightarrow>
          (case (data_avail_cp self, warn_avail_cp self) of
             (Some th, Some w) \<Rightarrow>
               let window = py_slice indata (fst slc_all) (snd slc_all);
                   check_avail = check_data_avail window th w ''event'';
                   outdata = fst acc
               in if fst check_avail then
                    (if length window = length (df_index outdata)
                     then Inr (DataFrame (df_index outdata) (set_column icp window (df_columns outdata)),
                               snd acc @ snd check_avail)
                     else Inl ValueError)
                  else Inr (DataFrame (df_index outdata)
                              (set_column icp (replicate (length (df_index outdata)) NaN) (df_columns outdata)),
                            snd acc @ snd check_avail)
           | _ \<Rightarrow> Inl AttributeError))"

fun var_time_loop ::
  "engine \<Rightarrow> npfloat list \<Rightarrow> int list \<Rightarrow> frame \<times> diag list \<Rightarrow> error + (frame \<times> diag list)" where
  "var_time_loop self indata [] acc = Inr acc"
| "var_time_loop self indata (icp # rest) acc =
     (case var_time_step self indata acc icp of
        Inl e \<Rightarrow> Inl e
      | Inr acc' \<Rightarrow> var_time_loop self indata rest acc')"

definition var_time :: "engine \<Rightarrow> npfloat list \<Rightarrow> error + (frame \<times> diag list)" where
  "var_time self indata =
     (let check_len = check_data_len (ntime self) indata ''Provided''
      in if \<not> fst check_len then Inr (DataFrame [] [], snd check_len)
         else case (data_avail_all self, warn_avail_all self) of
                (Some th, Some w) \<Rightarrow>
                  (let out_avail = snd (check_data_avail indata th w ''provided'')
                   in case (npre self, npost self) of
                        (Some a, Some b) \<Rightarrow>
                          var_time_loop self indata (cp_index self)
                            (DataFrame [- a..b] [], snd check_len @ out_avail)
                      | _ \<Rightarrow> Inl AttributeError)
              | _ \<Rightarrow> Inl AttributeError)"

text \<open>
  \<open>post_val - pre_val\<close>. Two series are subtracted label by label; two frames column
  by column. A series and the frame without rows give a frame without rows that has the
  labels of the series as columns.
\<close>

definition series_sub :: "(int \<times> npfloat) list \<Rightarrow> (int \<times> npfloat) list \<Rightarrow> (int \<times> npfloat) list" where
  "series_sub a b =
     map (\<lambda>(k, x). (k, case map_of b k of Some y \<Rightarrow> fsub x y | None \<Rightarrow> NaN)) a"

definition frame_sub :: "frame \<Rightarrow> frame \<Rightarrow> frame" where
  "frame_sub f g =
     DataFrame (df_index f)
       (map (\<lambda>(k, c). (k, case map_of (df_columns g) k of
                             Some c' \<Rightarrow> map (\<lambda>(x, y). fsub x y) (zip c c')
                           | None \<Rightarrow> map (\<lambda>x. NaN) c)) (df_columns f))"

fun pd_sub :: "pdval \<Rightarrow> pdval \<Rightarrow> pdval" where
  "pd_sub (Series a) (Series b) = Series (series_sub a b)"
| "pd_sub (Frame f) (Frame g) = Frame (frame_sub f g)"
| "pd_sub (Series a) (Frame g) = Frame (DataFrame [] (map (\<lambda>(k, x). (k, [])) a))"
| "pd_sub (Frame f) (Series b) = Frame (DataFrame [] (map (\<lambda>(k, x). (k, [])) b))"

definition var_pert :: "engine \<Rightarrow> npfloat list \<Rightarrow> string \<Rightarrow> string \<Rightarrow> error + (pdval \<times> diag list)" where
  "var_pert self indata prefunc postfunc =
     (case var_time self indata of
        Inl e \<Rightarrow> Inl e
      | Inr (frame1, out1) \<Rightarrow>
          (case pre_val self frame1 prefunc of
             Inl e \<Rightarrow> Inl e
           | Inr (pre_v, out2) \<Rightarrow>
               (case var_time self indata of
                  Inl e \<Rightarrow> Inl e
                | Inr (frame2, out3) \<Rightarrow>
                    (case post_val self frame2 postfunc of
                       Inl e \<Rightarrow> Inl e
                     | Inr (post_v, out4) \<Rightarrow>
                         Inr (pd_sub post_v pre_v, out1 @ out2 @ out3 @ out4)))))"

definition periods :: "string list" where
  "periods = [''pre'', ''post'', ''all'']"

definition var_val :: "engine \<Rightarrow> npfloat list \<Rightarrow> string \<Rightarrow> string \<Rightarrow> error + (pdval \<times> diag list)" where
  "var_val self indata period funcstr =
     (if period \<notin> set periods then Inr (Frame (DataFrame [] []), [PeriodNotAvailable period])
      else case var_time self indata of
             Inl e \<Rightarrow> Inl e
           | Inr (eventdata, out1) \<Rightarrow>
               (case (if period = ''pre'' then pre_val self eventdata funcstr
                      else if period = ''post'' then post_val self eventdata funcstr
                      else all_val self eventdata funcstr) of
                  Inl e \<Rightarrow> Inl e
                | Inr (v, out2) \<Rightarrow> Inr (v, out1 @ out2)))"

definition tt_pert :: "engine \<Rightarrow> error + (pdval \<times> diag list)" where
  "tt_pert self = var_pert self (ttdata self) ''median'' ''min''"

definition tt_time :: "engine \<Rightarrow> error + (frame \<times> diag list)" where
  "tt_time self = var_time self (ttdata self)"

definition rr_time :: "engine \<Rightarrow> error + (frame \<times> diag list)" where
  "rr_time self = var_time self (rrdata self)"

subsection \<open>Names for the values the constructor computes\<close>

text \<open>
  The sample count of a duration on a grid whose step has \<open>secs\<close> seconds, the record of
  loop constants and the candidate list, written once so that the statements below can
  refer to them. They repeat the expressions of \<open>cp_detection_init\<close>.
\<close>

definition samples :: "real \<Rightarrow> nat \<Rightarrow> int" where
  "samples dur secs = py_int (dur / (real secs / 60))"

definition init_scan :: "npfloat list \<Rightarrow> npfloat list \<Rightarrow> nat \<Rightarrow> nat \<Rightarrow> options \<Rightarrow> scan" where
  "init_scan tt rr n secs opts =
     \<lparr>s_ttdata = tt, s_rrdata = rr, s_ntime = int n, s_ntt = samples (d_time opts) secs,
      s_npre = samples (time_pre opts) secs, s_npost = samples (time_post opts) secs,
      s_d_tt_p = d_tt_p opts, s_data_avail_cp = arg_data_avail_cp opts\<rparr>"

definition init_cands :: "npfloat list \<Rightarrow> nat \<Rightarrow> options \<Rightarrow> int list" where
  "init_cands tt secs opts =
     (if samples (d_time opts) secs > 0 \<and> samples (time_pre opts) secs > 0
         \<and> samples (time_post opts) secs > 0
      then t_ttlim tt (samples (d_time opts) secs) (d_tt opts) else [])"

definition valid_engine ::
  "nat \<Rightarrow> nat \<Rightarrow> npfloat list \<Rightarrow> npfloat list \<Rightarrow> options \<Rightarrow> int list \<Rightarrow> engine" where
  "valid_engine n secs tt rr opts cps =
     \<lparr>ntime = int n,
      data_avail_cp = Some (arg_data_avail_cp opts),
      data_avail_all = Some (arg_data_avail_all opts),
      warn_avail_cp = Some (arg_warn_avail_cp opts),
      warn_avail_all = Some (arg_warn_avail_all opts),
      npre = Some (samples (time_pre opts) secs), npost = Some (samples (time_post opts) secs),
      dtdata = DatetimeIndex n (Some secs), ttdata = tt, rrdata = rr,
      cp_index = cps, cp_datetime = cps, ncp = length cps\<rparr>"

definition valid_diags :: "nat \<Rightarrow> npfloat list \<Rightarrow> npfloat list \<Rightarrow> options \<Rightarrow> diag list" where
  "valid_diags secs tt rr opts =
     snd (check_data_avail tt (arg_data_avail_all opts) (arg_warn_avail_all opts) ''TT'') @
     snd (check_data_avail rr (arg_data_avail_all opts) (arg_warn_avail_all opts) ''RR'') @
     resolution_diags (samples (d_time opts) secs) (samples (time_pre opts) secs)
       (samples (time_post opts) secs)"

subsection \<open>The windowed column in the words of the specification\<close>

text \<open>
  The column of the event at \<open>icp\<close> as section 4.5 of the specification describes it:
  the samples at the offsets \<open>-npre, ..., +npost\<close> from the passage, or the placeholder
  at every offset when the slice fails the availability gate.
\<close>

definition spec_event_column :: "npfloat list \<Rightarrow> int \<Rightarrow> int \<Rightarrow> real \<Rightarrow> int \<Rightarrow> npfloat list" where
  "spec_event_column series a b th icp =
     (if avail_ok (map (\<lambda>off. series ! nat (icp + off)) [- a..b]) th
      then map (\<lambda>off. series ! nat (icp + off)) [- a..b]
      else map (\<lambda>off. NaN) [- a..b])"

subsection \<open>The reduction named by a function string\<close>

text \<open>The function that \<open>_calc_val\<close> applies to every column for a name of its list,
  and the rows of a column that a period keeps.\<close>

definition reducer :: "string \<Rightarrow> npfloat list \<Rightarrow> npfloat" where
  "reducer funcstr =
     (if funcstr = ''median'' then pd_median
      else if funcstr = ''mean'' then pd_mean
      else if funcstr = ''max'' then pd_max
      else if funcstr = ''min'' then pd_min
      else if funcstr = ''sum'' then pd_sum
      else if funcstr = ''first'' then (\<lambda>c. c ! 0)
      else last)"

definition period_rows :: "(int \<Rightarrow> bool) \<Rightarrow> int list \<Rightarrow> npfloat list \<Rightarrow> npfloat list" where
  "period_rows keep idx c = map snd (filter (\<lambda>(i, x). keep i) (zip idx c))"

subsection \<open>Example inputs\<close>

text \<open>Concrete objects and series on which the statements below are evaluated.\<close>

definition engine_2_3 :: engine where
  "engine_2_3 =
     \<lparr>ntime = 20, data_avail_cp = Some 1, data_avail_all = Some (9 / 10),
      warn_avail_cp = Some True, warn_avail_all = Some True,
      npre = Some 2, npost = Some 3, dtdata = DatetimeIndex 20 (Some 600),
      ttdata = [], rrdata = [], cp_index = [], cp_datetime = [], ncp = 0\<rparr>"

definition ex_tt :: "npfloat list" where
  "ex_tt = map Fin [5, 5, 5, 3, 3, 3, 3, 1, 1, 1]"

definition ex_rr :: "npfloat list" where
  "ex_rr = map Fin [0, 0, 0, 1, 1, 0, 0, 2, 2, 0]"

text \<open>A ten-minute grid (600 seconds): \<open>ntt = 1\<close>, \<open>npre = 1\<close>, \<open>npost = 2\<close>.\<close>

definition ex_opts :: options where
  "ex_opts = default_options\<lparr>d_time := 10, time_pre := 10, time_post := 20\<rparr>"

definition ex_engine :: engine where
  "ex_engine = valid_engine 10 600 ex_tt ex_rr ex_opts [2, 6]"

text \<open>A passage threshold of zero: the first sample of every window matches.\<close>

definition cx_zero_tt :: "npfloat list" where
  "cx_zero_tt = map Fin [5, 5, 5, 3, 3, 1, 1, 1]"

definition cx_zero_rr :: "npfloat list" where
  "cx_zero_rr = map Fin [0, 0, 1, 1, 1, 1, 1, 1]"

definition cx_zero_opts :: options where
  "cx_zero_opts = default_options\<lparr>d_time := 10, time_pre := 10, time_post := 20, d_tt_p := 0\<rparr>"

text \<open>Default thresholds, an infinite temperature sample and half of the samples required.\<close>

definition cx_inf_tt :: "npfloat list" where
  "cx_inf_tt = [Fin 5, Fin 5, Fin 5, Fin 3, Fin 3, PInf, Fin 1, Fin 1, Fin 1, Fin 1]"

definition cx_inf_rr :: "npfloat list" where
  "cx_inf_rr = map Fin [0, 0, 0, 1, 1, 1, 1, 0, 0, 0]"

definition cx_half_opts :: options where
  "cx_half_opts = default_options\<lparr>d_time := 10, time_pre := 10, time_post := 20,
                                   arg_data_avail_cp := 1 / 2\<rparr>"

text \<open>A missing rainfall sample right after the first passage.\<close>

definition cx_nan_rr :: "npfloat list" where
  "cx_nan_rr = [Fin 0, Fin 0, Fin 0, NaN, Fin 1, Fin 0, Fin 0, Fin 2, Fin 2, Fin 0]"

text \<open>Three samples, and the object that the constructor leaves when a check fails:
  none of the attributes of the \<open>if check_all:\<close> block is set.\<close>

definition cx_series3 :: "npfloat list" where
  "cx_series3 = map Fin [20, 20, 20]"

definition unset_engine :: "dtdata \<Rightarrow> int \<Rightarrow> npfloat list \<Rightarrow> npfloat list \<Rightarrow> engine" where
  "unset_engine dt n tt rr =
     \<lparr>ntime = n, data_avail_cp = None, data_avail_all = None,
      warn_avail_cp = None, warn_avail_all = None, npre = None, npost = None,
      dtdata = dt, ttdata = tt, rrdata = rr, cp_index = [], cp_datetime = [], ncp = 0\<rparr>"

section \<open>Auxiliary facts\<close>

subsection \<open>Positions, slices and candidates\<close>

lemma filter_upt_first:
  "filter P [0..<n] = j # rest \<Longrightarrow> j < n \<and> P j \<and> (\<forall>k<j. \<not> P k)"
proof (induction n arbitrary: rest)
  case 0
  then show ?case by simp
next
  case (Suc n)
  show ?case
  proof (cases "filter P [0..<n]")
    case Nil
    with Suc.prems have "P n" "j = n" by (auto split: if_splits)
    moreover from Nil have "\<forall>k<n. \<not> P k" by (auto simp: filter_empty_conv)
    ultimately show ?thesis by simp
  next
    case (Cons a as)
    with Suc.prems have "a = j" by (auto split: if_splits)
    with Cons have "filter P [0..<n] = j # as" by simp
    from Suc.IH [OF this] have "j < n \<and> P j \<and> (\<forall>k<j. \<not> P k)" .
    then show ?thesis by simp
  qed
qed

lemma np_where_Cons:
  assumes "np_where bs = j # rest"
  shows "0 \<le> j \<and> nat j < length bs \<and> bs ! nat j \<and> (\<forall>k < nat j. \<not> bs ! k)"
proof -
  from assms obtain i ir where f: "filter (\<lambda>i. bs ! i) [0..<length bs] = i # ir" and j: "j = int i"
    by (auto simp: np_where_def)
  from filter_upt_first [OF f] j show ?thesis by simp
qed

lemma np_where_Nil:
  "np_where bs = [] \<longleftrightarrow> (\<forall>i < length bs. \<not> bs ! i)"
  by (auto simp: np_where_def filter_empty_conv)

lemma set_np_where:
  "set (np_where bs) = {int i | i. i < length bs \<and> bs ! i}"
  by (auto simp: np_where_def)

lemma py_slice_inrange:
  assumes "0 \<le> a" "a \<le> b" "b \<le> int (length xs)"
  shows "py_slice xs a b = take (nat (b - a)) (drop (nat a) xs)"
proof -
  have a: "slice_bound a (length xs) = nat a"
    using assms by (simp add: slice_bound_def)
  have b: "slice_bound b (length xs) = nat b"
    using assms by (simp add: slice_bound_def)
  have "nat b - nat a = nat (b - a)"
    using assms by (simp add: nat_diff_distrib)
  then show ?thesis
    by (simp add: py_slice_def a b)
qed

lemma length_py_slice_inrange:
  assumes "0 \<le> a" "a \<le> b" "b \<le> int (length xs)"
  shows "length (py_slice xs a b) = nat (b - a)"
  using assms by (simp add: py_slice_inrange)

lemma nth_py_slice_inrange:
  assumes "0 \<le> a" "a \<le> b" "b \<le> int (length xs)" "k < nat (b - a)"
  shows "py_slice xs a b ! k = xs ! (nat a + k)"
  using assms by (simp add: py_slice_inrange)

lemma t_ttlim_iff:
  assumes "0 < ntt"
  shows "t \<in> set (t_ttlim tt ntt d) \<longleftrightarrow>
         0 \<le> t \<and> t + ntt < int (length tt) \<and> fle (fsub (tt ! nat (t + ntt)) (tt ! nat t)) (Fin d)"
proof -
  let ?n = "length tt"
  let ?k = "nat ntt"
  let ?z = "zip (drop ?k tt) (take (?n - ?k) tt)"
  let ?m = "map (\<lambda>(a, b). fle (fsub a b) (Fin d)) ?z"
  have a: "py_slice tt ntt (int ?n) = drop ?k tt"
    using assms by (simp add: py_slice_def slice_bound_def Let_def min_def)
  have b: "py_slice tt 0 (- ntt) = take (?n - ?k) tt"
    using assms by (simp add: py_slice_def slice_bound_def Let_def max_def nat_diff_distrib)
  have len: "length ?m = ?n - ?k" by simp
  have nth: "?m ! i = fle (fsub (tt ! (?k + i)) (tt ! i)) (Fin d)" if "i < ?n - ?k" for i
    using that by simp
  have tm: "t_ttlim tt ntt d = np_where ?m"
    by (simp only: t_ttlim_def a b)
  have "t \<in> set (np_where ?m) \<longleftrightarrow> (\<exists>i. t = int i \<and> i < length ?m \<and> ?m ! i)"
    unfolding set_np_where by blast
  then have "t \<in> set (t_ttlim tt ntt d) \<longleftrightarrow> (\<exists>i. t = int i \<and> i < ?n - ?k \<and> ?m ! i)"
    by (simp only: tm len)
  also have "\<dots> \<longleftrightarrow> (\<exists>i. t = int i \<and> i < ?n - ?k \<and> fle (fsub (tt ! (?k + i)) (tt ! i)) (Fin d))"
    by (rule ex_cong1) (use nth in blast)
  also have "\<dots> \<longleftrightarrow> 0 \<le> t \<and> t + ntt < int ?n \<and> fle (fsub (tt ! nat (t + ntt)) (tt ! nat t)) (Fin d)"
  proof
    assume "\<exists>i. t = int i \<and> i < ?n - ?k \<and> fle (fsub (tt ! (?k + i)) (tt ! i)) (Fin d)"
    then obtain i where i: "t = int i" "i < ?n - ?k" "fle (fsub (tt ! (?k + i)) (tt ! i)) (Fin d)"
      by blast
    have "nat (t + ntt) = ?k + i" using i(1) assms by (simp add: nat_add_distrib)
    with i assms show "0 \<le> t \<and> t + ntt < int ?n \<and> fle (fsub (tt ! nat (t + ntt)) (tt ! nat t)) (Fin d)"
      by auto
  next
    assume r: "0 \<le> t \<and> t + ntt < int ?n \<and> fle (fsub (tt ! nat (t + ntt)) (tt ! nat t)) (Fin d)"
    have "nat (t + ntt) = ?k + nat t" using r assms by (simp add: nat_add_distrib)
    with r assms have "t = int (nat t) \<and> nat t < ?n - ?k \<and> fle (fsub (tt ! (?k + nat t)) (tt ! nat t)) (Fin d)"
      by auto
    then show "\<exists>i. t = int i \<and> i < ?n - ?k \<and> fle (fsub (tt ! (?k + i)) (tt ! i)) (Fin d)"
      by blast
  qed
  finally show ?thesis .
qed

lemma refine_passage_iff:
  assumes "0 \<le> t" "0 \<le> ntt" "t + ntt < int (length tt)"
  shows "refine_passage tt ntt dp t = Inr icp \<longleftrightarrow>
         (\<exists>j. j \<le> nat ntt \<and> fle (tt ! (nat t + j)) (fadd (tt ! nat t) (Fin dp))
              \<and> (\<forall>k<j. \<not> fle (tt ! (nat t + k)) (fadd (tt ! nat t) (Fin dp)))
              \<and> icp = t + int j - 1)"
proof -
  let ?p = "fadd (tt ! nat t) (Fin dp)"
  let ?w = "py_slice tt t (t + ntt + 1)"
  let ?m = "map (\<lambda>x. fle x ?p) ?w"
  have g: "py_get tt t = Inr (tt ! nat t)"
    using assms by (simp add: py_get_def Let_def)
  have len: "length ?m = nat ntt + 1"
    using assms by (simp add: length_py_slice_inrange nat_add_distrib)
  have nth: "?m ! k = fle (tt ! (nat t + k)) ?p" if "k \<le> nat ntt" for k
    using that assms by (simp add: nth_py_slice_inrange length_py_slice_inrange nat_add_distrib)
  show ?thesis
  proof
    assume "refine_passage tt ntt dp t = Inr icp"
    then obtain j rest where w: "np_where ?m = j # rest" and icp: "icp = j + t - 1"
      by (auto simp: refine_passage_def g Let_def split: list.splits)
    from np_where_Cons [OF w] have j: "0 \<le> j" "nat j < length ?m" "?m ! nat j"
      "\<forall>k<nat j. \<not> ?m ! k" by auto
    from j(2) len have le: "nat j \<le> nat ntt" by simp
    have "fle (tt ! (nat t + nat j)) ?p" using nth [OF le] j(3) by simp
    moreover have "\<forall>k<nat j. \<not> fle (tt ! (nat t + k)) ?p"
      using j(4) nth le by auto
    moreover have "icp = t + int (nat j) - 1" using icp j(1) by simp
    ultimately show "\<exists>j. j \<le> nat ntt \<and> fle (tt ! (nat t + j)) ?p
              \<and> (\<forall>k<j. \<not> fle (tt ! (nat t + k)) ?p) \<and> icp = t + int j - 1"
      using le by blast
  next
    assume "\<exists>j. j \<le> nat ntt \<and> fle (tt ! (nat t + j)) ?p
              \<and> (\<forall>k<j. \<not> fle (tt ! (nat t + k)) ?p) \<and> icp = t + int j - 1"
    then obtain j where j: "j \<le> nat ntt" "fle (tt ! (nat t + j)) ?p"
       "\<forall>k<j. \<not> fle (tt ! (nat t + k)) ?p" "icp = t + int j - 1" by blast
    have mj: "?m ! j" using nth [OF j(1)] j(2) by simp
    have "j < length ?m" using j(1) len by simp
    with mj have "np_where ?m \<noteq> []"
      unfolding np_where_Nil by blast
    then obtain i rest where w: "np_where ?m = i # rest" by (cases "np_where ?m") auto
    from np_where_Cons [OF w] have i: "0 \<le> i" "nat i < length ?m" "?m ! nat i"
      "\<forall>k<nat i. \<not> ?m ! k" by auto
    have "nat i = j"
    proof (rule ccontr)
      assume ne: "nat i \<noteq> j"
      show False
      proof (cases "nat i < j")
        case True
        then have "nat i \<le> nat ntt" using j(1) by simp
        from nth [OF this] i(3) j(3) True show False by auto
      next
        case False
        with ne have "j < nat i" by simp
        with i(4) mj show False by blast
      qed
    qed
    then have "i = int j" using i(1) by simp
    with w j(4) show "refine_passage tt ntt dp t = Inr icp"
      by (simp add: refine_passage_def g Let_def)
  qed
qed

subsection \<open>The detection loop\<close>

lemma refine_passage_lower:
  assumes "refine_passage tt ntt dp t = Inr icp"
  shows "t - 1 \<le> icp"
proof -
  from assms obtain tt0 j rest where
    w: "np_where (map (\<lambda>x. fle x (fadd tt0 (Fin dp))) (py_slice tt t (t + ntt + 1))) = j # rest"
    and icp: "icp = j + t - 1"
    by (auto simp: refine_passage_def Let_def split: sum.splits list.splits)
  from np_where_Cons [OF w] have "0 \<le> j" by simp
  with icp show ?thesis by simp
qed

lemma examine_accept:
  assumes "examine S prev t = Inr (Some icp)"
  shows "s_npost S < t - prev"
    and "refine_passage (s_ttdata S) (s_ntt S) (s_d_tt_p S) t = Inr icp"
    and "0 \<le> icp - s_npre S"
    and "icp + s_npost S + 1 \<le> s_ntime S"
    and "avail_ok (py_slice (s_ttdata S) (icp - s_npre S) (icp + s_npost S + 1)) (s_data_avail_cp S)"
    and "avail_ok (py_slice (s_rrdata S) (icp - s_npre S) (icp + s_npost S + 1)) (s_data_avail_cp S)"
    and "\<not> feq (np_sum (py_slice (s_rrdata S) (icp + 1) (icp + s_npost S + 1))) (Fin 0)"
proof -
  from assms show a: "s_npost S < t - prev"
    by (auto simp: examine_def split: if_splits)
  from assms a obtain i where r: "refine_passage (s_ttdata S) (s_ntt S) (s_d_tt_p S) t = Inr i"
    by (cases "refine_passage (s_ttdata S) (s_ntt S) (s_d_tt_p S) t") (auto simp: examine_def)
  have ex: "examine S prev t =
      (if i - s_npre S < 0 \<or> i + s_npost S + 1 > s_ntime S then Inr None
       else if \<not> avail_ok (py_slice (s_ttdata S) (i - s_npre S) (i + s_npost S + 1)) (s_data_avail_cp S)
             \<or> \<not> avail_ok (py_slice (s_rrdata S) (i - s_npre S) (i + s_npost S + 1)) (s_data_avail_cp S)
       then Inr None
       else if feq (np_sum (py_slice (s_rrdata S) (i + 1) (i + s_npost S + 1))) (Fin 0) then Inr None
       else Inr (Some i))"
    using a r by (simp add: examine_def index_cp_def check_data_avail_def Let_def)
  from assms have eq: "i = icp"
    unfolding ex by (simp split: if_splits)
  from r eq show "refine_passage (s_ttdata S) (s_ntt S) (s_d_tt_p S) t = Inr icp" by simp
  from assms show "0 \<le> icp - s_npre S"
    unfolding ex eq by (simp split: if_splits)
  from assms show "icp + s_npost S + 1 \<le> s_ntime S"
    unfolding ex eq by (simp split: if_splits)
  from assms show "avail_ok (py_slice (s_ttdata S) (icp - s_npre S) (icp + s_npost S + 1)) (s_data_avail_cp S)"
    unfolding ex eq by (simp split: if_splits)
  from assms show "avail_ok (py_slice (s_rrdata S) (icp - s_npre S) (icp + s_npost S + 1)) (s_data_avail_cp S)"
    unfolding ex eq by (simp split: if_splits)
  from assms show "\<not> feq (np_sum (py_slice (s_rrdata S) (icp + 1) (icp + s_npost S + 1))) (Fin 0)"
    unfolding ex eq by (simp split: if_splits)
qed

lemma detect_members:
  assumes "detect S ts prev acc = Inr res" and "x \<in> set res"
  shows "x \<in> set acc \<or> (\<exists>t\<in>set ts. \<exists>p. examine S p t = Inr (Some x))"
  using assms
proof (induction ts arbitrary: prev acc)
  case Nil
  then show ?case by simp
next
  case (Cons t ts)
  show ?case
  proof (cases "examine S prev t")
    case (Inl e)
    with Cons.prems show ?thesis by simp
  next
    case (Inr v)
    show ?thesis
    proof (cases v)
      case None
      with Inr Cons.prems have "detect S ts prev acc = Inr res" by simp
      from Cons.IH [OF this Cons.prems(2)] show ?thesis by auto
    next
      case (Some icp)
      with Inr Cons.prems have "detect S ts icp (acc @ [icp]) = Inr res" by simp
      from Cons.IH [OF this Cons.prems(2)] Inr Some show ?thesis by auto
    qed
  qed
qed

lemma detect_separated:
  assumes "detect S ts prev acc = Inr res"
    and "\<forall>t\<in>set ts. \<forall>icp. refine_passage (s_ttdata S) (s_ntt S) (s_d_tt_p S) t = Inr icp \<longrightarrow> t - c \<le> icp"
    and "\<forall>a\<in>set acc. a \<le> prev"
    and "sorted_wrt (\<lambda>a b. s_npost S - c < b - a) acc"
    and "c \<le> s_npost S"
  shows "sorted_wrt (\<lambda>a b. s_npost S - c < b - a) res"
  using assms
proof (induction ts arbitrary: prev acc)
  case Nil
  then show ?case by simp
next
  case (Cons t ts)
  have rest: "\<forall>t\<in>set ts. \<forall>icp. refine_passage (s_ttdata S) (s_ntt S) (s_d_tt_p S) t = Inr icp \<longrightarrow> t - c \<le> icp"
    using Cons.prems(2) by simp
  show ?case
  proof (cases "examine S prev t")
    case (Inl e)
    with Cons.prems show ?thesis by simp
  next
    case (Inr v)
    show ?thesis
    proof (cases v)
      case None
      with Inr Cons.prems(1) have "detect S ts prev acc = Inr res" by simp
      from Cons.IH [OF this rest Cons.prems(3) Cons.prems(4) Cons.prems(5)] show ?thesis .
    next
      case (Some icp)
      with Inr have ex: "examine S prev t = Inr (Some icp)" by simp
      from ex Cons.prems(1) have d: "detect S ts icp (acc @ [icp]) = Inr res" by simp
      from examine_accept(1,2) [OF ex] Cons.prems(2)
      have gap: "s_npost S < t - prev" and low: "t - c \<le> icp" by auto
      have far: "\<forall>a\<in>set acc. s_npost S - c < icp - a"
        using gap low Cons.prems(3) by fastforce
      have le: "\<forall>a\<in>set (acc @ [icp]). a \<le> icp"
        using far Cons.prems(5) by fastforce
      have so: "sorted_wrt (\<lambda>a b. s_npost S - c < b - a) (acc @ [icp])"
        using Cons.prems(4) far by (simp add: sorted_wrt_append)
      from Cons.IH [OF d rest le so Cons.prems(5)] show ?thesis .
    qed
  qed
qed


subsection \<open>The constructor\<close>

lemma init_valid_eq:
  assumes "secs \<noteq> 0" and "length tt = n" and "length rr = n"
  shows "cp_detection_init (DatetimeIndex n (Some secs)) tt rr opts =
          (case detect (init_scan tt rr n secs opts) (init_cands tt secs opts) (- 99999) [] of
             Inl e \<Rightarrow> Inl e
           | Inr cps \<Rightarrow> Inr (valid_engine n secs tt rr opts cps, valid_diags secs tt rr opts))"
  using assms
  by (auto simp add: cp_detection_init_def check_data_len_def Let_def
        samples_def init_scan_def init_cands_def valid_engine_def valid_diags_def
        split: sum.splits)

lemma init_invalid_eq:
  assumes "dt = NoDatetimeIndex \<or> (\<exists>n. dt = DatetimeIndex n None)
           \<or> (\<exists>n fr. dt = DatetimeIndex n fr \<and> (length tt \<noteq> n \<or> length rr \<noteq> n))"
  shows "\<exists>out. cp_detection_init dt tt rr opts =
           Inr (\<lparr>ntime = (case dt of DatetimeIndex n _ \<Rightarrow> int n | NoDatetimeIndex \<Rightarrow> - 1),
                 data_avail_cp = None, data_avail_all = None,
                 warn_avail_cp = None, warn_avail_all = None,
                 npre = None, npost = None,
                 dtdata = dt, ttdata = tt, rrdata = rr,
                 cp_index = [], cp_datetime = [], ncp = 0\<rparr>, out)"
  using assms
  by (auto simp add: cp_detection_init_def check_data_len_def Let_def split: option.splits)

lemma init_with_events:
  assumes "cp_detection_init dt tt rr opts = Inr (eng, out)" and "cp_index eng \<noteq> []"
  shows "\<exists>n secs. dt = DatetimeIndex n (Some secs) \<and> secs \<noteq> 0
           \<and> length tt = n \<and> length rr = n
           \<and> eng = valid_engine n secs tt rr opts (cp_index eng)
           \<and> 0 < samples (d_time opts) secs
           \<and> 0 < samples (time_pre opts) secs
           \<and> 0 < samples (time_post opts) secs
           \<and> detect (init_scan tt rr n secs opts)
                 (t_ttlim tt (samples (d_time opts) secs) (d_tt opts)) (- 99999) [] = Inr (cp_index eng)"
proof -
  have valid: "\<exists>n secs. dt = DatetimeIndex n (Some secs) \<and> secs \<noteq> 0 \<and> length tt = n \<and> length rr = n"
  proof (rule ccontr)
    assume c: "\<not> ?thesis"
    show False
    proof (cases "dt = NoDatetimeIndex \<or> (\<exists>n. dt = DatetimeIndex n None)
           \<or> (\<exists>n fr. dt = DatetimeIndex n fr \<and> (length tt \<noteq> n \<or> length rr \<noteq> n))")
      case True
      from init_invalid_eq [OF True, of opts] assms show False by auto
    next
      case False
      with c obtain n where dt: "dt = DatetimeIndex n (Some 0)" and len: "length tt = n" "length rr = n"
        by (cases dt) auto
      with assms(1) show False
        by (simp add: cp_detection_init_def check_data_len_def Let_def)
    qed
  qed
  then obtain n secs where v: "dt = DatetimeIndex n (Some secs)" "secs \<noteq> 0" "length tt = n" "length rr = n"
    by blast
  from assms(1) init_valid_eq [OF v(2,3,4), of opts] v(1)
  obtain cps where d: "detect (init_scan tt rr n secs opts) (init_cands tt secs opts) (- 99999) [] = Inr cps"
    and e: "eng = valid_engine n secs tt rr opts cps"
    by (auto split: sum.splits)
  have cps: "cp_index eng = cps" using e by (simp add: valid_engine_def)
  have pos: "0 < samples (d_time opts) secs \<and> 0 < samples (time_pre opts) secs
        \<and> 0 < samples (time_post opts) secs"
  proof (rule ccontr)
    assume "\<not> ?thesis"
    then have "init_cands tt secs opts = []" by (auto simp: init_cands_def)
    with d have "cps = []" by simp
    with cps assms(2) show False by simp
  qed
  then have "init_cands tt secs opts = t_ttlim tt (samples (d_time opts) secs) (d_tt opts)"
    by (simp add: init_cands_def)
  with d cps e pos v show ?thesis by simp
qed

text \<open>What a failed validation leaves: an object without events. A duration that gives
  no positive sample count passes the checks and leaves an object without events whose
  attributes are set.\<close>

lemma day_step_raises:
  assumes "length tt = n" and "length rr = n"
  shows "cp_detection_init (DatetimeIndex n (Some 0)) tt rr opts = Inl ZeroDivisionError"
  using assms by (simp add: cp_detection_init_def check_data_len_def Let_def)

lemma validation_failure_no_events:
  assumes "dt = NoDatetimeIndex \<or> (\<exists>n. dt = DatetimeIndex n None)
           \<or> (\<exists>n fr. dt = DatetimeIndex n fr \<and> (length tt \<noteq> n \<or> length rr \<noteq> n))
           \<or> (\<exists>n secs. dt = DatetimeIndex n (Some secs) \<and> secs \<noteq> 0
                 \<and> (samples (d_time opts) secs \<le> 0 \<or> samples (time_pre opts) secs \<le> 0
                      \<or> samples (time_post opts) secs \<le> 0))"
  shows "\<exists>self out. cp_detection_init dt tt rr opts = Inr (self, out)
           \<and> cp_index self = [] \<and> ncp self = 0"
proof (cases "dt = NoDatetimeIndex \<or> (\<exists>n. dt = DatetimeIndex n None)
           \<or> (\<exists>n fr. dt = DatetimeIndex n fr \<and> (length tt \<noteq> n \<or> length rr \<noteq> n))")
  case True
  from init_invalid_eq [OF True, of opts] show ?thesis by auto
next
  case False
  with assms obtain n secs where dt: "dt = DatetimeIndex n (Some secs)" and nz: "secs \<noteq> 0"
    and np: "samples (d_time opts) secs \<le> 0 \<or> samples (time_pre opts) secs \<le> 0
                      \<or> samples (time_post opts) secs \<le> 0"
    by blast
  from False dt have len: "length tt = n" "length rr = n" by auto
  from np have "init_cands tt secs opts = []" by (auto simp: init_cands_def)
  with init_valid_eq [OF nz len, of opts] dt
  have "cp_detection_init dt tt rr opts
          = Inr (valid_engine n secs tt rr opts [], valid_diags secs tt rr opts)"
    by simp
  then show ?thesis by (simp add: valid_engine_def)
qed

subsection \<open>Evaluation of the examples\<close>

text \<open>The definitions that \<open>simp\<close> unfolds to run the model on a concrete input.\<close>

lemmas eval_defs = t_ttlim_def np_where_def py_slice_def slice_bound_def fsub_def
  refine_passage_def py_get_def examine_def index_cp_def check_data_avail_def avail_ok_def
  feq_def np_sum_def init_scan_def samples_def py_int_def Let_def check_data_len_def
  resolution_diags_def valid_engine_def cp_detection_init_def
  ex_tt_def ex_rr_def ex_opts_def default_options_def

lemmas cx_defs = cx_zero_tt_def cx_zero_rr_def cx_zero_opts_def cx_inf_tt_def cx_inf_rr_def
  cx_half_opts_def cx_nan_rr_def

subsection \<open>Accepted events and refined indices\<close>

lemma accepted_event:
  assumes "cp_detection_init dt tt rr opts = Inr (self, out)" and "icp \<in> set (cp_index self)"
  shows "\<exists>n secs t prev. dt = DatetimeIndex n (Some secs) \<and> secs \<noteq> 0
           \<and> length tt = n \<and> length rr = n
           \<and> self = valid_engine n secs tt rr opts (cp_index self)
           \<and> 0 < samples (d_time opts) secs
           \<and> 0 < samples (time_pre opts) secs
           \<and> 0 < samples (time_post opts) secs
           \<and> t \<in> set (t_ttlim tt (samples (d_time opts) secs) (d_tt opts))
           \<and> examine (init_scan tt rr n secs opts) prev t = Inr (Some icp)"
proof -
  from assms(2) have ne: "cp_index self \<noteq> []" by auto
  from init_with_events [OF assms(1) ne] obtain n secs where
    v: "dt = DatetimeIndex n (Some secs)" "secs \<noteq> 0" "length tt = n" "length rr = n"
       "self = valid_engine n secs tt rr opts (cp_index self)"
       "0 < samples (d_time opts) secs" "0 < samples (time_pre opts) secs"
       "0 < samples (time_post opts) secs"
    and d: "detect (init_scan tt rr n secs opts)
                 (t_ttlim tt (samples (d_time opts) secs) (d_tt opts)) (- 99999) [] = Inr (cp_index self)"
    by blast
  from detect_members [OF d assms(2)] obtain t prev where
    "t \<in> set (t_ttlim tt (samples (d_time opts) secs) (d_tt opts))"
    "examine (init_scan tt rr n secs opts) prev t = Inr (Some icp)"
    by auto
  with v show ?thesis by blast
qed






subsection \<open>Sums and availability\<close>

lemma fadd_nonneg:
  assumes "fle (Fin 0) a" and "fle (Fin 0) b"
  shows "fle (Fin 0) (fadd a b)"
  using assms by (cases a; cases b) simp_all

lemma foldl_fadd_nonneg:
  assumes "fle (Fin 0) a" and "\<forall>x\<in>set xs. fle (Fin 0) x"
  shows "fle (Fin 0) (foldl fadd a xs)"
  using assms
proof (induction xs arbitrary: a)
  case Nil
  then show ?case by simp
next
  case (Cons x xs)
  from Cons.prems have "fle (Fin 0) (fadd a x)" by (simp add: fadd_nonneg)
  with Cons.IH [of "fadd a x"] Cons.prems show ?case by simp
qed

lemma np_sum_nonneg:
  assumes "\<forall>x\<in>set xs. fle (Fin 0) x"
  shows "fle (Fin 0) (np_sum xs)"
  unfolding np_sum_def by (rule foldl_fadd_nonneg) (use assms in simp_all)

lemma avail_ok_all_finite:
  assumes "avail_ok xs th" and "1 \<le> th"
  shows "\<forall>x\<in>set xs. isfinite x"
proof -
  from assms(1) have ne: "xs \<noteq> []"
    and r0: "th \<le> real (length (filter isfinite xs)) / real (length xs)"
    by (simp_all add: avail_ok_def)
  from r0 assms(2) have r: "1 \<le> real (length (filter isfinite xs)) / real (length xs)"
    by simp
  from ne have pos: "0 < real (length xs)" by simp
  from r pos have "real (length xs) \<le> real (length (filter isfinite xs))"
    by (simp add: le_divide_eq)
  then have "length xs \<le> length (filter isfinite xs)" by simp
  moreover have "length (filter isfinite xs) \<le> length xs" by simp
  ultimately have "length (filter isfinite xs) = length xs" by simp
  then have "filter isfinite xs = xs"
    by (metis length_filter_less less_irrefl filter_True)
  then show ?thesis by (metis filter_id_conv)
qed

lemma py_slice_suffix_subset:
  assumes "0 \<le> a" and "a \<le> c" and "c \<le> d" and "d \<le> int (length xs)"
  shows "set (py_slice xs c d) \<subseteq> set (py_slice xs a d)"
proof -
  have 1: "py_slice xs a d = take (nat (d - a)) (drop (nat a) xs)"
    using assms by (intro py_slice_inrange) simp_all
  have 2: "py_slice xs c d = take (nat (d - c)) (drop (nat c) xs)"
    using assms by (intro py_slice_inrange) simp_all
  have "drop (nat (c - a)) (take (nat (d - a)) (drop (nat a) xs))
        = take (nat (d - a) - nat (c - a)) (drop (nat (c - a)) (drop (nat a) xs))"
    by (simp add: drop_take)
  also have "nat (d - a) - nat (c - a) = nat (d - c)" using assms by simp
  also have "drop (nat (c - a)) (drop (nat a) xs) = drop (nat c) xs"
    using assms by (simp add: nat_diff_distrib)
  finally have "py_slice xs c d = drop (nat (c - a)) (py_slice xs a d)"
    by (simp add: 1 2)
  then show ?thesis by (simp add: set_drop_subset)
qed

subsection \<open>The table of windows\<close>

lemma set_column_new:
  assumes "k \<notin> fst ` set cols"
  shows "set_column k v cols = cols @ [(k, v)]"
  using assms by (induction cols) auto

lemma py_slice_offsets:
  assumes "0 \<le> icp - a" and "icp + b + 1 \<le> int (length xs)" and "0 \<le> a" and "0 \<le> b"
  shows "py_slice xs (icp - a) (icp + b + 1) = map (\<lambda>off. xs ! nat (icp + off)) [- a..b]"
proof (rule nth_equalityI)
  have le: "icp - a \<le> icp + b + 1" using assms by simp
  have len: "length (py_slice xs (icp - a) (icp + b + 1)) = nat (a + b + 1)"
    using length_py_slice_inrange [OF assms(1) le assms(2)] by (simp add: algebra_simps)
  then show "length (py_slice xs (icp - a) (icp + b + 1))
        = length (map (\<lambda>off. xs ! nat (icp + off)) [- a..b])"
    using assms by simp
  fix k assume "k < length (py_slice xs (icp - a) (icp + b + 1))"
  with len have k: "k < nat (a + b + 1)" by simp
  then have k': "k < nat (icp + b + 1 - (icp - a))" by (simp add: algebra_simps)
  have 1: "py_slice xs (icp - a) (icp + b + 1) ! k = xs ! (nat (icp - a) + k)"
    by (rule nth_py_slice_inrange [OF assms(1) le assms(2) k'])
  have 2: "[- a..b] ! k = - a + int k"
    using k assms by (intro nth_upto) simp
  have 3: "k < length [- a..b]" using k assms by simp
  have "nat (icp - a) + k = nat (icp + (- a + int k))"
    using assms(1) by (simp add: nat_add_distrib)
  with 1 2 3 show "py_slice xs (icp - a) (icp + b + 1) ! k
        = map (\<lambda>off. xs ! nat (icp + off)) [- a..b] ! k"
    by simp
qed

lemma var_time_step_column:
  assumes "npre self = Some a" and "npost self = Some b"
    and "data_avail_cp self = Some th" and "warn_avail_cp self = Some w"
    and "0 \<le> icp - a" and "icp + b + 1 \<le> int (length indata)" and "0 \<le> a" and "0 \<le> b"
  shows "\<exists>out'. var_time_step self indata (DataFrame [- a..b] cols, out) icp
           = Inr (DataFrame [- a..b] (set_column icp (spec_event_column indata a b th icp) cols), out')"
proof -
  let ?W = "map (\<lambda>off. indata ! nat (icp + off)) [- a..b]"
  have slc: "self_index_cp self icp ''all'' = Inr (Some (icp - a, icp + b + 1))"
    using assms(1,2) by (simp add: self_index_cp_def index_cp_def)
  have win: "py_slice indata (icp - a) (icp + b + 1) = ?W"
    by (rule py_slice_offsets [OF assms(5,6,7,8)])
  have rep: "replicate (length [- a..b]) NaN = map (\<lambda>off. NaN) [- a..b]"
    by (simp add: map_replicate_const)
  show ?thesis
  proof (cases "avail_ok ?W th")
    case True
    then show ?thesis
      by (simp add: var_time_step_def slc win assms(3,4) check_data_avail_def
            spec_event_column_def Let_def)
  next
    case False
    then show ?thesis
      by (simp add: var_time_step_def slc win assms(3,4) check_data_avail_def
            spec_event_column_def Let_def rep del: length_upto)
  qed
qed

lemma var_time_loop_columns:
  assumes "npre self = Some a" and "npost self = Some b"
    and "data_avail_cp self = Some th" and "warn_avail_cp self = Some w"
    and "\<forall>icp\<in>set cs. 0 \<le> icp - a \<and> icp + b + 1 \<le> int (length indata)"
    and "0 \<le> a" and "0 \<le> b"
    and "distinct cs" and "set cs \<inter> fst ` set cols = {}"
  shows "\<exists>out'. var_time_loop self indata cs (DataFrame [- a..b] cols, out)
           = Inr (DataFrame [- a..b]
                    (cols @ map (\<lambda>icp. (icp, spec_event_column indata a b th icp)) cs), out')"
  using assms(5,8,9)
proof (induction cs arbitrary: cols out)
  case Nil
  then show ?case by simp
next
  case (Cons icp cs)
  from Cons.prems(1) have b: "0 \<le> icp - a" "icp + b + 1 \<le> int (length indata)" by simp_all
  from var_time_step_column [OF assms(1,2,3,4) b assms(6,7), of cols out]
  obtain out1 where step: "var_time_step self indata (DataFrame [- a..b] cols, out) icp
           = Inr (DataFrame [- a..b] (set_column icp (spec_event_column indata a b th icp) cols), out1)"
    by blast
  from Cons.prems(3) have "icp \<notin> fst ` set cols" by auto
  then have sc: "set_column icp (spec_event_column indata a b th icp) cols
      = cols @ [(icp, spec_event_column indata a b th icp)]"
    by (rule set_column_new)
  have 1: "\<forall>i\<in>set cs. 0 \<le> i - a \<and> i + b + 1 \<le> int (length indata)"
    using Cons.prems(1) by simp
  have 2: "distinct cs" using Cons.prems(2) by simp
  have 3: "set cs \<inter> fst ` set (cols @ [(icp, spec_event_column indata a b th icp)]) = {}"
    using Cons.prems(2,3) by auto
  from Cons.IH [OF 1 2 3, of out1] step sc show ?case by simp
qed

lemma valid_engine_events:
  assumes "cp_detection_init dt tt rr opts = Inr (self, out)" and "cp_index self \<noteq> []"
  shows "\<exists>n secs. length tt = n \<and> length rr = n
           \<and> self = valid_engine n secs tt rr opts (cp_index self)
           \<and> 0 < samples (time_pre opts) secs \<and> 0 < samples (time_post opts) secs
           \<and> (\<forall>icp\<in>set (cp_index self).
                 0 \<le> icp - samples (time_pre opts) secs
                 \<and> icp + samples (time_post opts) secs + 1 \<le> int n)
           \<and> sorted_wrt (<) (cp_index self)"
proof -
  from init_with_events [OF assms] obtain n secs where
    v: "length tt = n" "length rr = n" "self = valid_engine n secs tt rr opts (cp_index self)"
       "0 < samples (time_pre opts) secs" "0 < samples (time_post opts) secs"
    and d: "detect (init_scan tt rr n secs opts)
                 (t_ttlim tt (samples (d_time opts) secs) (d_tt opts)) (- 99999) [] = Inr (cp_index self)"
    by blast
  let ?S = "init_scan tt rr n secs opts"
  have S: "s_npre ?S = samples (time_pre opts) secs" "s_npost ?S = samples (time_post opts) secs"
    "s_ntime ?S = int n"
    by (simp_all add: init_scan_def)
  have bounds: "\<forall>icp\<in>set (cp_index self).
                 0 \<le> icp - samples (time_pre opts) secs
                 \<and> icp + samples (time_post opts) secs + 1 \<le> int n"
  proof
    fix icp assume "icp \<in> set (cp_index self)"
    from detect_members [OF d this] obtain t p where "examine ?S p t = Inr (Some icp)" by auto
    from examine_accept(3,4) [OF this] S
    show "0 \<le> icp - samples (time_pre opts) secs
                 \<and> icp + samples (time_post opts) secs + 1 \<le> int n" by simp
  qed
  have low1: "\<forall>t\<in>set (t_ttlim tt (samples (d_time opts) secs) (d_tt opts)). \<forall>icp.
        refine_passage (s_ttdata ?S) (s_ntt ?S) (s_d_tt_p ?S) t = Inr icp \<longrightarrow> t - 1 \<le> icp"
    using refine_passage_lower by blast
  have "sorted_wrt (\<lambda>x y. s_npost ?S - 1 < y - x) (cp_index self)"
    by (rule detect_separated [OF d low1]) (use v(5) S(2) in simp_all)
  then have inc: "sorted_wrt (<) (cp_index self)"
    by (rule sorted_wrt_mono_rel [rotated]) (use v(5) S(2) in simp)
  from v bounds inc show ?thesis by blast
qed

lemma var_time_valid_engine:
  assumes "length indata = n"
  shows "var_time (valid_engine n secs tt rr opts cps) indata =
           var_time_loop (valid_engine n secs tt rr opts cps) indata cps
             (DataFrame [- samples (time_pre opts) secs..samples (time_post opts) secs] [],
              snd (check_data_avail indata (arg_data_avail_all opts) (arg_warn_avail_all opts) ''provided''))"
  using assms by (simp add: var_time_def valid_engine_def check_data_len_def Let_def)

lemma var_time_constructed:
  assumes "cp_detection_init dt tt rr opts = Inr (self, out)"
    and "cp_index self \<noteq> []" and "length indata = length tt"
  shows "\<exists>a b th diags. npre self = Some a \<and> npost self = Some b \<and> 0 < a \<and> 0 < b
           \<and> data_avail_cp self = Some th
           \<and> var_time self indata
               = Inr (DataFrame [- a..b]
                        (map (\<lambda>i. (i, spec_event_column indata a b th i)) (cp_index self)), diags)"
proof -
  from valid_engine_events [OF assms(1,2)] obtain n secs where
    v: "length tt = n" "self = valid_engine n secs tt rr opts (cp_index self)"
       "0 < samples (time_pre opts) secs" "0 < samples (time_post opts) secs"
    and bounds: "\<forall>icp\<in>set (cp_index self).
                 0 \<le> icp - samples (time_pre opts) secs
                 \<and> icp + samples (time_post opts) secs + 1 \<le> int n"
    and inc: "sorted_wrt (<) (cp_index self)"
    by blast
  let ?a = "samples (time_pre opts) secs" and ?b = "samples (time_post opts) secs"
  let ?th = "arg_data_avail_cp opts"
  let ?cols = "map (\<lambda>i. (i, spec_event_column indata ?a ?b ?th i)) (cp_index self)"
  have at: "npre self = Some ?a" "npost self = Some ?b" "data_avail_cp self = Some ?th"
    "warn_avail_cp self = Some (arg_warn_avail_cp opts)"
    by (subst v(2), simp add: valid_engine_def)+
  have len: "length indata = n" using assms(3) v(1) by simp
  have dist: "distinct (cp_index self)"
    using inc by (simp add: strict_sorted_iff)
  have b': "\<forall>icp\<in>set (cp_index self). 0 \<le> icp - ?a \<and> icp + ?b + 1 \<le> int (length indata)"
    using bounds len by simp
  have vt: "var_time self indata = var_time_loop self indata (cp_index self)
             (DataFrame [- ?a..?b] [],
              snd (check_data_avail indata (arg_data_avail_all opts) (arg_warn_avail_all opts) ''provided''))"
    by (subst (1 2) v(2)) (rule var_time_valid_engine [OF len])
  have a0: "0 \<le> ?a" "0 \<le> ?b" using v(3,4) by simp_all
  have e: "set (cp_index self) \<inter> fst ` set ([]::(int \<times> npfloat list) list) = {}" by simp
  from var_time_loop_columns [OF at b' a0 dist e]
  obtain diags where loop: "var_time_loop self indata (cp_index self)
             (DataFrame [- ?a..?b] [],
              snd (check_data_avail indata (arg_data_avail_all opts) (arg_warn_avail_all opts) ''provided''))
           = Inr (DataFrame [- ?a..?b] ([] @ ?cols), diags)"
    by blast
  have res: "var_time self indata = Inr (DataFrame [- ?a..?b] ?cols, diags)"
    using vt loop by simp
  from at res v(3,4) show ?thesis by blast
qed

subsection \<open>Reductions of the table\<close>

lemma calc_val_known:
  assumes "funcstr \<in> set funcavail" and "df_index f \<noteq> []"
  shows "calc_val f funcstr = Inr (reduce_columns (reducer funcstr) f, [])"
  using assms by (auto simp: calc_val_def reducer_def funcavail_def)

lemma reduce_columns_loc_rows:
  "reduce_columns g (loc_rows keep (DataFrame idx cols))
     = Series (map (\<lambda>(k, c). (k, g (period_rows keep idx c))) cols)"
  by (simp add: reduce_columns_def loc_rows_def period_rows_def split_def comp_def)

lemma series_sub_lookup:
  assumes "map_of post k = Some y" and "map_of pre k = Some x"
  shows "map_of (series_sub post pre) k = Some (fsub y x)"
  using assms(1)
proof (induction post)
  case Nil
  then show ?case by simp
next
  case (Cons p post)
  obtain k' v where p: "p = (k', v)" by (cases p)
  show ?case
  proof (cases "k' = k")
    case True
    with Cons.prems p assms(2) show ?thesis by (simp add: series_sub_def)
  next
    case False
    with Cons.prems p have "map_of post k = Some y" by simp
    from Cons.IH [OF this] False p show ?thesis by (simp add: series_sub_def)
  qed
qed

lemma map_fst_series_sub: "map fst (series_sub post pre) = map fst post"
  by (simp add: series_sub_def split_def comp_def)

lemma period_values_constructed:
  assumes "cp_detection_init dt tt rr opts = Inr (self, out)"
    and "cp_index self \<noteq> []" and "length indata = length tt"
    and "prefunc \<in> set funcavail" and "postfunc \<in> set funcavail"
  shows "\<exists>a b th frame diags. npre self = Some a \<and> npost self = Some b
           \<and> data_avail_cp self = Some th
           \<and> var_time self indata = Inr (DataFrame [- a..b] frame, diags)
           \<and> frame = map (\<lambda>i. (i, spec_event_column indata a b th i)) (cp_index self)
           \<and> pre_val self (DataFrame [- a..b] frame) prefunc
               = Inr (Series (map (\<lambda>(k, c). (k, reducer prefunc (period_rows (\<lambda>i. i \<le> 0) [- a..b] c))) frame), [])
           \<and> post_val self (DataFrame [- a..b] frame) postfunc
               = Inr (Series (map (\<lambda>(k, c). (k, reducer postfunc (period_rows (\<lambda>i. 1 \<le> i) [- a..b] c))) frame), [])"
proof -
  from var_time_constructed [OF assms(1,2,3)] obtain a b th diags where
    at: "npre self = Some a" "npost self = Some b" "0 < a" "0 < b" "data_avail_cp self = Some th"
    and res: "var_time self indata
               = Inr (DataFrame [- a..b]
                        (map (\<lambda>i. (i, spec_event_column indata a b th i)) (cp_index self)), diags)"
    by blast
  let ?cols = "map (\<lambda>i. (i, spec_event_column indata a b th i)) (cp_index self)"
  let ?F = "DataFrame [- a..b] ?cols"
  have idx: "[- a..b] \<noteq> []" using at(3,4) by (simp add: upto.simps)
  have ne: "\<not> df_empty ?F" using idx assms(2) by (simp add: df_empty_def)
  have slc_pre: "self_index_cp self 0 ''pre'' = Inr (Some (0 - a, 0 + 1))"
    using at(1,2) by (simp add: self_index_cp_def index_cp_def)
  have slc_post: "self_index_cp self 0 ''post'' = Inr (Some (0 + 1, 0 + b + 1))"
    using at(1,2) by (simp add: self_index_cp_def index_cp_def)
  have "(0::int) \<in> set [- a..b]" using at(3,4) by simp
  then have pre_rows: "df_index (loc_rows (\<lambda>i. i \<le> 0) ?F) \<noteq> []"
    by (auto simp: loc_rows_def filter_empty_conv)
  have "(1::int) \<in> set [- a..b]" using at(3,4) by simp
  then have post_rows: "df_index (loc_rows (\<lambda>i. 1 \<le> i) ?F) \<noteq> []"
    by (auto simp: loc_rows_def filter_empty_conv)
  have pre: "pre_val self ?F prefunc
      = Inr (Series (map (\<lambda>(k, c). (k, reducer prefunc (period_rows (\<lambda>i. i \<le> 0) [- a..b] c))) ?cols), [])"
    using ne slc_pre calc_val_known [OF assms(4) pre_rows]
    by (simp add: pre_val_def reduce_columns_loc_rows)
  have post: "post_val self ?F postfunc
      = Inr (Series (map (\<lambda>(k, c). (k, reducer postfunc (period_rows (\<lambda>i. 1 \<le> i) [- a..b] c))) ?cols), [])"
    using ne slc_post calc_val_known [OF assms(5) post_rows]
    by (simp add: post_val_def reduce_columns_loc_rows)
  from at res pre post show ?thesis by blast
qed

text \<open>The definitions that \<open>simp\<close> unfolds to run a query on a concrete object.\<close>

lemmas query_defs = var_time_def var_time_step_def self_index_cp_def var_pert_def var_val_def
  pre_val_def post_val_def all_val_def calc_val_def funcavail_def periods_def df_empty_def
  loc_rows_def reduce_columns_def series_sub_def pd_median_def pd_mean_def pd_max_def pd_min_def
  pd_sum_def dropna_def sort_f_def tt_pert_def tt_time_def rr_time_def number_def indices_def
  upto_rec1

section \<open>Period slices\<close>

text \<open>
  C5, as the source has it. For an event at index \<open>i\<close> the method \<open>_index_cp\<close> returns
  the slices pre = [i - npre, i + 1), post = [i + 1, i + npost + 1) and
  all = [i - npre, i + npost + 1); the result is determined by \<open>i\<close> and the two attributes
  \<open>npre\<close> and \<open>npost\<close>. The pre slice ends after the passage sample \<open>i\<close>, not before it.
\<close>

theorem index_cp_ranges:
  assumes "npre self = Some a" and "npost self = Some b"
  shows "self_index_cp self i ''pre'' = Inr (Some (i - a, i + 1))
       \<and> self_index_cp self i ''post'' = Inr (Some (i + 1, i + b + 1))
       \<and> self_index_cp self i ''all'' = Inr (Some (i - a, i + b + 1))"
  using assms by (simp add: self_index_cp_def index_cp_def)

theorem index_cp_ranges_witness:
  "npre engine_2_3 = Some 2 \<and> npost engine_2_3 = Some 3
   \<and> self_index_cp engine_2_3 5 ''pre'' = Inr (Some (3, 6))
   \<and> self_index_cp engine_2_3 5 ''post'' = Inr (Some (6, 9))
   \<and> self_index_cp engine_2_3 5 ''all'' = Inr (Some (3, 9))"
proof -
  have a: "npre engine_2_3 = Some 2" and b: "npost engine_2_3 = Some 3"
    by (simp_all add: engine_2_3_def)
  from index_cp_ranges [OF a b, of 5] a b show ?thesis by simp
qed

text \<open>
  C5 as the claim words it has pre = [i - npre, i). At \<open>i = 5\<close>, \<open>npre = 2\<close>,
  \<open>npost = 3\<close> the method returns the slice (3, 6), which contains index 5.
\<close>

theorem index_cp_pre_counterexample:
  "self_index_cp engine_2_3 5 ''pre'' = Inr (Some (3, 6))
   \<and> self_index_cp engine_2_3 5 ''pre'' \<noteq> Inr (Some (5 - 2, 5))"
  by (simp add: self_index_cp_def index_cp_def engine_2_3_def)

section \<open>Unknown function and period names\<close>

text \<open>
  C9. The reduction \<open>_calc_val\<close>, given a function name outside
  median, mean, max, min, sum, first, last, returns the empty frame and one diagnostic and
  raises nothing; \<open>var_val\<close>, given a period name outside pre, post, all, does the same,
  whatever the state of the object.
\<close>

theorem unknown_names_empty_result:
  "set funcavail = {''median'', ''mean'', ''max'', ''min'', ''sum'', ''first'', ''last''}
   \<and> set periods = {''pre'', ''post'', ''all''}
   \<and> (funcstr \<notin> set funcavail \<longrightarrow>
        calc_val eventdata funcstr = Inr (Frame (DataFrame [] []), [FunctionNotAvailable funcstr]))
   \<and> (period \<notin> set periods \<longrightarrow>
        var_val self indata period funcstr = Inr (Frame (DataFrame [] []), [PeriodNotAvailable period]))
   \<and> df_empty (DataFrame [] [])"
proof -
  have 1: "set funcavail = {''median'', ''mean'', ''max'', ''min'', ''sum'', ''first'', ''last''}"
    by (simp add: funcavail_def)
  have 2: "set periods = {''pre'', ''post'', ''all''}"
    by (simp add: periods_def)
  have 3: "funcstr \<notin> set funcavail \<longrightarrow>
        calc_val eventdata funcstr = Inr (Frame (DataFrame [] []), [FunctionNotAvailable funcstr])"
    by (simp add: calc_val_def)
  have 4: "period \<notin> set periods \<longrightarrow>
        var_val self indata period funcstr = Inr (Frame (DataFrame [] []), [PeriodNotAvailable period])"
    by (simp add: var_val_def)
  have 5: "df_empty (DataFrame [] [])"
    by (simp add: df_empty_def)
  from 1 2 3 4 5 show ?thesis by blast
qed

theorem unknown_names_empty_result_witness:
  "''mode'' \<notin> set funcavail \<and> ''during'' \<notin> set periods
   \<and> calc_val (DataFrame [0] [(7, [Fin 1])]) ''mode''
       = Inr (Frame (DataFrame [] []), [FunctionNotAvailable ''mode''])
   \<and> var_val engine_2_3 [] ''during'' ''mode''
       = Inr (Frame (DataFrame [] []), [PeriodNotAvailable ''during''])"
proof -
  have f: "''mode'' \<notin> set funcavail" by (simp add: funcavail_def)
  have p: "''during'' \<notin> set periods" by (simp add: periods_def)
  from unknown_names_empty_result
         [of "''mode''" "DataFrame [0] [(7, [Fin 1])]" "''during''" engine_2_3 "[]"] f p
  show ?thesis by blast
qed

section \<open>Passage refinement\<close>

text \<open>
  C1. For a raw candidate \<open>t\<close> (a member of \<open>t_ttlim\<close>, which exists only for
  \<open>ntt > 0\<close>), the refinement returns the index \<open>icp\<close> exactly when \<open>icp\<close> is one
  sample before the first position \<open>t + j\<close> of the window \<open>[t, t + ntt]\<close> whose
  temperature is at or below \<open>ttdata[t] + d_tt_p\<close>; and an event that the loop body accepts
  for candidate \<open>t\<close> carries that index.
\<close>

theorem passage_index_first_drop:
  assumes "0 < ntt" and "t \<in> set (t_ttlim tt ntt d)"
  shows "(refine_passage tt ntt dp t = Inr icp \<longleftrightarrow>
           (\<exists>j\<le>nat ntt. fle (tt ! (nat t + j)) (fadd (tt ! nat t) (Fin dp))
               \<and> (\<forall>k<j. \<not> fle (tt ! (nat t + k)) (fadd (tt ! nat t) (Fin dp)))
               \<and> icp = t + int j - 1))
       \<and> (s_ttdata S = tt \<and> s_ntt S = ntt \<and> s_d_tt_p S = dp
            \<and> examine S icp_prev t = Inr (Some icp)
          \<longrightarrow> refine_passage tt ntt dp t = Inr icp)"
proof -
  from assms t_ttlim_iff [OF assms(1), of t tt d]
  have r: "0 \<le> t" "0 \<le> ntt" "t + ntt < int (length tt)" by auto
  have 1: "refine_passage tt ntt dp t = Inr icp \<longleftrightarrow>
           (\<exists>j\<le>nat ntt. fle (tt ! (nat t + j)) (fadd (tt ! nat t) (Fin dp))
               \<and> (\<forall>k<j. \<not> fle (tt ! (nat t + k)) (fadd (tt ! nat t) (Fin dp)))
               \<and> icp = t + int j - 1)"
    using refine_passage_iff [OF r, of dp icp] by blast
  have 2: "s_ttdata S = tt \<and> s_ntt S = ntt \<and> s_d_tt_p S = dp
            \<and> examine S icp_prev t = Inr (Some icp)
          \<longrightarrow> refine_passage tt ntt dp t = Inr icp"
    using examine_accept(2) [of S icp_prev t icp] by auto
  from 1 2 show ?thesis by blast
qed

text \<open>Candidate 2 of the example series: the drop from 5 to 3 is reached at index 3, the
  passage index is 2.\<close>

theorem passage_index_first_drop_witness:
  "(0::int) < 1 \<and> 2 \<in> set (t_ttlim ex_tt 1 (- 2)) \<and> refine_passage ex_tt 1 (- 1 / 2) 2 = Inr 2"
proof -
  have h1: "(0::int) < 1" by simp
  have h2: "2 \<in> set (t_ttlim ex_tt 1 (- 2))" by (simp add: eval_defs)
  have "\<exists>j\<le>nat 1. fle (ex_tt ! (nat 2 + j)) (fadd (ex_tt ! nat 2) (Fin (- 1 / 2)))
               \<and> (\<forall>k<j. \<not> fle (ex_tt ! (nat 2 + k)) (fadd (ex_tt ! nat 2) (Fin (- 1 / 2))))
               \<and> (2::int) = 2 + int j - 1"
    by (rule exI [of _ 1]) (simp add: ex_tt_def)
  with passage_index_first_drop [OF h1 h2, of "- 1 / 2" 2] h1 h2 show ?thesis by blast
qed



section \<open>Accepted events\<close>

text \<open>
  C3. Every accepted event of a constructed object has its "all" slice
  \<open>[icp - npre, icp + npost + 1)\<close> inside the series: \<open>0 \<le> icp - npre\<close> and
  \<open>icp + npost + 1 \<le> ntime\<close>, where \<open>ntime\<close> is the common length of the grid and of
  both series.
\<close>

theorem accepted_window_in_bounds:
  assumes "cp_detection_init dt tt rr opts = Inr (self, out)" and "icp \<in> set (cp_index self)"
  shows "\<exists>a b. npre self = Some a \<and> npost self = Some b
           \<and> ntime self = int (length tt) \<and> length rr = length tt
           \<and> self_index_cp self icp ''all'' = Inr (Some (icp - a, icp + b + 1))
           \<and> 0 \<le> icp - a \<and> icp + b + 1 \<le> ntime self"
proof -
  from accepted_event [OF assms] obtain n secs t prev where
    v: "length tt = n" "length rr = n" "self = valid_engine n secs tt rr opts (cp_index self)"
    and ex: "examine (init_scan tt rr n secs opts) prev t = Inr (Some icp)"
    by blast
  let ?a = "samples (time_pre opts) secs" and ?b = "samples (time_post opts) secs"
  have a: "npre self = Some ?a" and b: "npost self = Some ?b" and n: "ntime self = int n"
    by (subst v(3), simp add: valid_engine_def)+
  from examine_accept(3,4) [OF ex]
  have "0 \<le> icp - ?a" "icp + ?b + 1 \<le> int n" by (simp_all add: init_scan_def)
  moreover have "self_index_cp self icp ''all'' = Inr (Some (icp - ?a, icp + ?b + 1))"
    using a b by (simp add: self_index_cp_def index_cp_def)
  ultimately show ?thesis using a b n v(1,2) by simp
qed

theorem accepted_window_in_bounds_witness:
  "cp_detection_init (DatetimeIndex 10 (Some 600)) ex_tt ex_rr ex_opts = Inr (ex_engine, [])
   \<and> 6 \<in> set (cp_index ex_engine)
   \<and> npre ex_engine = Some 1 \<and> npost ex_engine = Some 2 \<and> ntime ex_engine = 10
   \<and> self_index_cp ex_engine 6 ''all'' = Inr (Some (5, 9))"
proof -
  have i: "cp_detection_init (DatetimeIndex 10 (Some 600)) ex_tt ex_rr ex_opts = Inr (ex_engine, [])"
    by (simp add: ex_engine_def eval_defs)
  have m: "6 \<in> set (cp_index ex_engine)"
    by (simp add: ex_engine_def valid_engine_def)
  have e: "npre ex_engine = Some 1" "npost ex_engine = Some 2" "ntime ex_engine = 10"
    by (simp_all add: ex_engine_def eval_defs)
  from accepted_window_in_bounds [OF i m] e
  have "self_index_cp ex_engine 6 ''all'' = Inr (Some (5, 9))" by auto
  with i m e show ?thesis by blast
qed




text \<open>
  C4, as the source has it. For every accepted event the rainfall sum over the post slice
  is not equal to zero: a candidate whose sum is exactly zero is skipped. The sum is
  strictly greater than zero when every rainfall sample of the post slice is a number at
  or above zero; with an availability threshold of at least 1 every sample of the slice
  is finite.
\<close>

theorem accepted_rainfall_nonzero:
  assumes "cp_detection_init dt tt rr opts = Inr (self, out)" and "icp \<in> set (cp_index self)"
  shows "\<exists>b. npost self = Some b
           \<and> self_index_cp self icp ''post'' = Inr (Some (icp + 1, icp + b + 1))
           \<and> \<not> feq (np_sum (py_slice rr (icp + 1) (icp + b + 1))) (Fin 0)
           \<and> ((\<forall>x\<in>set (py_slice rr (icp + 1) (icp + b + 1)). fle (Fin 0) x)
                \<longrightarrow> flt (Fin 0) (np_sum (py_slice rr (icp + 1) (icp + b + 1))))
           \<and> (1 \<le> arg_data_avail_cp opts
                \<longrightarrow> (\<forall>x\<in>set (py_slice rr (icp + 1) (icp + b + 1)). isfinite x))"
proof -
  from accepted_event [OF assms] obtain n secs t prev where
    v: "length rr = n" "self = valid_engine n secs tt rr opts (cp_index self)"
       "0 < samples (time_pre opts) secs" "0 < samples (time_post opts) secs"
    and ex: "examine (init_scan tt rr n secs opts) prev t = Inr (Some icp)"
    by blast
  let ?a = "samples (time_pre opts) secs" and ?b = "samples (time_post opts) secs"
  let ?post = "py_slice rr (icp + 1) (icp + ?b + 1)"
  have a: "npre self = Some ?a" and b: "npost self = Some ?b"
    by (subst v(2), simp add: valid_engine_def)+
  have slc: "self_index_cp self icp ''post'' = Inr (Some (icp + 1, icp + ?b + 1))"
    using a b by (simp add: self_index_cp_def index_cp_def)
  from examine_accept(3,4,6,7) [OF ex]
  have lo: "0 \<le> icp - ?a" and hi: "icp + ?b + 1 \<le> int n"
    and av: "avail_ok (py_slice rr (icp - ?a) (icp + ?b + 1)) (arg_data_avail_cp opts)"
    and nz: "\<not> feq (np_sum ?post) (Fin 0)"
    by (simp_all add: init_scan_def)
  have pos: "flt (Fin 0) (np_sum ?post)" if nn: "\<forall>x\<in>set ?post. fle (Fin 0) x"
  proof -
    from np_sum_nonneg [OF nn] have "fle (Fin 0) (np_sum ?post)" .
    moreover from nz have "\<not> feq (Fin 0) (np_sum ?post)"
      by (auto simp: feq_def)
    ultimately show ?thesis by (simp add: flt_def)
  qed
  have fin: "\<forall>x\<in>set ?post. isfinite x" if th: "1 \<le> arg_data_avail_cp opts"
  proof -
    have "set ?post \<subseteq> set (py_slice rr (icp - ?a) (icp + ?b + 1))"
      by (rule py_slice_suffix_subset) (use lo hi v(1,3,4) in simp_all)
    with avail_ok_all_finite [OF av th] show ?thesis by blast
  qed
  from b slc nz pos fin show ?thesis by blast
qed

theorem accepted_rainfall_nonzero_witness:
  "cp_detection_init (DatetimeIndex 10 (Some 600)) ex_tt ex_rr ex_opts = Inr (ex_engine, [])
   \<and> 6 \<in> set (cp_index ex_engine)
   \<and> npost ex_engine = Some 2
   \<and> py_slice ex_rr (6 + 1) (6 + 2 + 1) = [Fin 2, Fin 2]
   \<and> fle (Fin 0) (Fin 2)
   \<and> 1 \<le> arg_data_avail_cp ex_opts
   \<and> np_sum (py_slice ex_rr (6 + 1) (6 + 2 + 1)) = Fin 4
   \<and> flt (Fin 0) (np_sum (py_slice ex_rr (6 + 1) (6 + 2 + 1)))
   \<and> list_all isfinite (py_slice ex_rr (6 + 1) (6 + 2 + 1))"
proof -
  have i: "cp_detection_init (DatetimeIndex 10 (Some 600)) ex_tt ex_rr ex_opts = Inr (ex_engine, [])"
    by (simp add: ex_engine_def eval_defs)
  have m: "6 \<in> set (cp_index ex_engine)"
    by (simp add: ex_engine_def valid_engine_def)
  have e: "npost ex_engine = Some 2"
    by (simp add: ex_engine_def eval_defs)
  have p: "py_slice ex_rr (6 + 1) (6 + 2 + 1) = [Fin 2, Fin 2]"
    by (simp add: eval_defs)
  have n: "\<forall>x\<in>set (py_slice ex_rr (6 + 1) (6 + 2 + 1)). fle (Fin 0) x"
    using p by simp
  have t: "1 \<le> arg_data_avail_cp ex_opts"
    by (simp add: ex_opts_def default_options_def)
  have s: "np_sum (py_slice ex_rr (6 + 1) (6 + 2 + 1)) = Fin 4"
    using p by (simp add: np_sum_def)
  from accepted_rainfall_nonzero [OF i m] e n t
  have "flt (Fin 0) (np_sum (py_slice ex_rr (6 + 1) (6 + 2 + 1)))
        \<and> (\<forall>x\<in>set (py_slice ex_rr (6 + 1) (6 + 2 + 1)). isfinite x)" by auto
  then have "flt (Fin 0) (np_sum (py_slice ex_rr (6 + 1) (6 + 2 + 1)))
        \<and> list_all isfinite (py_slice ex_rr (6 + 1) (6 + 2 + 1))"
    by (simp add: list_all_iff)
  with i m e p t s show ?thesis by simp
qed

text \<open>
  C4 as the claim words it has a strictly positive sum for every configuration, thresholds
  below 1 included. With a threshold of one half the missing rainfall sample at index 3
  passes the availability gate, the sum over the post slice [3, 5) of the event at index 2
  is NaN, \<open>NaN == 0\<close> is false, and the event is accepted; NaN is not greater than zero.
\<close>

theorem rainfall_positive_counterexample:
  "cp_detection_init (DatetimeIndex 10 (Some 600)) ex_tt cx_nan_rr cx_half_opts
     = Inr (valid_engine 10 600 ex_tt cx_nan_rr cx_half_opts [2, 6], [])
   \<and> self_index_cp (valid_engine 10 600 ex_tt cx_nan_rr cx_half_opts [2, 6]) 2 ''post''
     = Inr (Some (3, 5))
   \<and> np_sum (py_slice cx_nan_rr 3 5) = NaN
   \<and> \<not> flt (Fin 0) (np_sum (py_slice cx_nan_rr 3 5))"
  by (simp add: eval_defs cx_defs self_index_cp_def flt_def)

section \<open>Windows and perturbations\<close>

text \<open>
  C6. For a constructed object, an accepted event at \<open>icp\<close> and a series as long as
  the grid, \<open>var_time\<close> returns a table whose rows are the offsets \<open>-npre, ..., npost\<close>,
  whose columns are the accepted events in order, and whose column for \<open>icp\<close> is the
  column of the specification: the samples \<open>series[icp - npre], ..., series[icp + npost]\<close>
  when that slice passes the per-event availability gate, and the placeholder NaN at every
  offset when it does not.
\<close>

theorem windowed_column:
  assumes "cp_detection_init dt tt rr opts = Inr (self, out)"
    and "icp \<in> set (cp_index self)" and "length indata = length tt"
  shows "\<exists>a b th frame diags. npre self = Some a \<and> npost self = Some b
           \<and> data_avail_cp self = Some th
           \<and> var_time self indata = Inr (frame, diags)
           \<and> df_index frame = [- a..b]
           \<and> map fst (df_columns frame) = cp_index self
           \<and> map_of (df_columns frame) icp = Some (spec_event_column indata a b th icp)
           \<and> length (spec_event_column indata a b th icp) = length (df_index frame)"
proof -
  from assms(2) have ne: "cp_index self \<noteq> []" by auto
  from var_time_constructed [OF assms(1) ne assms(3)] obtain a b th diags where
    at: "npre self = Some a" "npost self = Some b" "data_avail_cp self = Some th"
    and res: "var_time self indata
               = Inr (DataFrame [- a..b]
                        (map (\<lambda>i. (i, spec_event_column indata a b th i)) (cp_index self)), diags)"
    by blast
  let ?cols = "map (\<lambda>i. (i, spec_event_column indata a b th i)) (cp_index self)"
  have keys: "map fst ?cols = cp_index self" by (simp add: comp_def)
  have look: "map_of ?cols icp = Some (spec_event_column indata a b th icp)"
    using assms(2) by (simp add: map_of_map_restrict restrict_map_def)
  have clen: "length (spec_event_column indata a b th icp) = length [- a..b]"
    by (simp add: spec_event_column_def)
  from at res keys look clen show ?thesis by simp
qed

text \<open>The event at index 6 of the example on the temperature series, and the event at
  index 2 on a rainfall series with a missing sample in its window.\<close>

theorem windowed_column_witness:
  "cp_detection_init (DatetimeIndex 10 (Some 600)) ex_tt ex_rr ex_opts = Inr (ex_engine, [])
   \<and> 6 \<in> set (cp_index ex_engine) \<and> 2 \<in> set (cp_index ex_engine)
   \<and> length ex_tt = length ex_tt \<and> length cx_nan_rr = length ex_tt
   \<and> var_time ex_engine ex_tt
       = Inr (DataFrame [- 1, 0, 1, 2]
                [(2, [Fin 5, Fin 5, Fin 3, Fin 3]), (6, [Fin 3, Fin 3, Fin 1, Fin 1])], [])
   \<and> spec_event_column ex_tt 1 2 1 6 = [Fin 3, Fin 3, Fin 1, Fin 1]
   \<and> var_time ex_engine cx_nan_rr
       = Inr (DataFrame [- 1, 0, 1, 2]
                [(2, [NaN, NaN, NaN, NaN]), (6, [Fin 0, Fin 0, Fin 2, Fin 2])],
              [AvailabilityWarning ''event''])
   \<and> spec_event_column cx_nan_rr 1 2 1 2 = [NaN, NaN, NaN, NaN]"
proof -
  have i: "cp_detection_init (DatetimeIndex 10 (Some 600)) ex_tt ex_rr ex_opts = Inr (ex_engine, [])"
    by (simp add: ex_engine_def eval_defs)
  have m: "6 \<in> set (cp_index ex_engine)" "2 \<in> set (cp_index ex_engine)"
    by (simp_all add: ex_engine_def valid_engine_def)
  have l: "length ex_tt = length ex_tt" "length cx_nan_rr = length ex_tt"
    by (simp_all add: ex_tt_def cx_nan_rr_def)
  have v1: "var_time ex_engine ex_tt
       = Inr (DataFrame [- 1, 0, 1, 2]
                [(2, [Fin 5, Fin 5, Fin 3, Fin 3]), (6, [Fin 3, Fin 3, Fin 1, Fin 1])], [])"
    by (simp add: var_time_def var_time_step_def self_index_cp_def ex_engine_def eval_defs upto_rec1)
  have v2: "var_time ex_engine cx_nan_rr
       = Inr (DataFrame [- 1, 0, 1, 2]
                [(2, [NaN, NaN, NaN, NaN]), (6, [Fin 0, Fin 0, Fin 2, Fin 2])],
              [AvailabilityWarning ''event''])"
    by (simp add: var_time_def var_time_step_def self_index_cp_def ex_engine_def eval_defs cx_defs
          upto_rec1)
  have a: "npre ex_engine = Some 1" "npost ex_engine = Some 2" "data_avail_cp ex_engine = Some 1"
    by (simp_all add: ex_engine_def eval_defs)
  from windowed_column [OF i m(1) l(1)] a v1
  have c1: "spec_event_column ex_tt 1 2 1 6 = [Fin 3, Fin 3, Fin 1, Fin 1]" by auto
  from windowed_column [OF i m(2) l(2)] a v2
  have c2: "spec_event_column cx_nan_rr 1 2 1 2 = [NaN, NaN, NaN, NaN]" by auto
  from i m l v1 v2 c1 c2 show ?thesis by blast
qed

text \<open>
  C7. For a constructed object, a series as long as the grid and two function names of the
  list, \<open>var_pert\<close> returns the series \<open>var_val(series, "post", postfunc)\<close> minus
  \<open>var_val(series, "pre", prefunc)\<close>: one value per accepted event, which for the event
  at \<open>icp\<close> is the reduction of the post rows of its column minus the reduction of the pre
  rows of its column. The two values come from two separate calls of \<open>var_time\<close> on the
  same series, so the diagnostics appear twice.
\<close>

theorem perturbation_post_minus_pre:
  assumes "cp_detection_init dt tt rr opts = Inr (self, out)"
    and "icp \<in> set (cp_index self)" and "length indata = length tt"
    and "prefunc \<in> set funcavail" and "postfunc \<in> set funcavail"
  shows "\<exists>a b th pre post d x y.
           npre self = Some a \<and> npost self = Some b \<and> data_avail_cp self = Some th
           \<and> var_val self indata ''pre'' prefunc = Inr (Series pre, d)
           \<and> var_val self indata ''post'' postfunc = Inr (Series post, d)
           \<and> var_pert self indata prefunc postfunc = Inr (Series (series_sub post pre), d @ d)
           \<and> map fst (series_sub post pre) = cp_index self
           \<and> map_of pre icp = Some x \<and> map_of post icp = Some y
           \<and> map_of (series_sub post pre) icp = Some (fsub y x)
           \<and> x = reducer prefunc (period_rows (\<lambda>i. i \<le> 0) [- a..b] (spec_event_column indata a b th icp))
           \<and> y = reducer postfunc (period_rows (\<lambda>i. 1 \<le> i) [- a..b] (spec_event_column indata a b th icp))"
proof -
  from assms(2) have ne: "cp_index self \<noteq> []" by auto
  from period_values_constructed [OF assms(1) ne assms(3,4,5)]
  obtain a b th frame diags where
    at: "npre self = Some a" "npost self = Some b" "data_avail_cp self = Some th"
    and vt: "var_time self indata = Inr (DataFrame [- a..b] frame, diags)"
    and fr: "frame = map (\<lambda>i. (i, spec_event_column indata a b th i)) (cp_index self)"
    and pv: "pre_val self (DataFrame [- a..b] frame) prefunc
               = Inr (Series (map (\<lambda>(k, c). (k, reducer prefunc (period_rows (\<lambda>i. i \<le> 0) [- a..b] c))) frame), [])"
    and qv: "post_val self (DataFrame [- a..b] frame) postfunc
               = Inr (Series (map (\<lambda>(k, c). (k, reducer postfunc (period_rows (\<lambda>i. 1 \<le> i) [- a..b] c))) frame), [])"
    by blast
  let ?P = "\<lambda>i. reducer prefunc (period_rows (\<lambda>i. i \<le> 0) [- a..b] (spec_event_column indata a b th i))"
  let ?Q = "\<lambda>i. reducer postfunc (period_rows (\<lambda>i. 1 \<le> i) [- a..b] (spec_event_column indata a b th i))"
  let ?pre = "map (\<lambda>i. (i, ?P i)) (cp_index self)"
  let ?post = "map (\<lambda>i. (i, ?Q i)) (cp_index self)"
  have pre_eq: "map (\<lambda>(k, c). (k, reducer prefunc (period_rows (\<lambda>i. i \<le> 0) [- a..b] c))) frame = ?pre"
    by (simp add: fr comp_def)
  have post_eq: "map (\<lambda>(k, c). (k, reducer postfunc (period_rows (\<lambda>i. 1 \<le> i) [- a..b] c))) frame = ?post"
    by (simp add: fr comp_def)
  have 1: "var_val self indata ''pre'' prefunc = Inr (Series ?pre, diags)"
    using vt pv pre_eq by (simp add: var_val_def periods_def)
  have 2: "var_val self indata ''post'' postfunc = Inr (Series ?post, diags)"
    using vt qv post_eq by (simp add: var_val_def periods_def)
  have 3: "var_pert self indata prefunc postfunc = Inr (Series (series_sub ?post ?pre), diags @ diags)"
    using vt pv qv pre_eq post_eq by (simp add: var_pert_def)
  have 4: "map fst (series_sub ?post ?pre) = cp_index self"
    by (simp add: map_fst_series_sub comp_def)
  have 5: "map_of ?pre icp = Some (?P icp)"
    using assms(2) by (simp add: map_of_map_restrict restrict_map_def)
  have 6: "map_of ?post icp = Some (?Q icp)"
    using assms(2) by (simp add: map_of_map_restrict restrict_map_def)
  have 7: "map_of (series_sub ?post ?pre) icp = Some (fsub (?Q icp) (?P icp))"
    by (rule series_sub_lookup [OF 6 5])
  from at 1 2 3 4 5 6 7 show ?thesis by blast
qed

text \<open>Median before and minimum after the passage, on the temperature series of the
  example: 3 and 1 for the event at index 6.\<close>

theorem perturbation_post_minus_pre_witness:
  "cp_detection_init (DatetimeIndex 10 (Some 600)) ex_tt ex_rr ex_opts = Inr (ex_engine, [])
   \<and> 6 \<in> set (cp_index ex_engine) \<and> length ex_tt = length ex_tt
   \<and> ''median'' \<in> set funcavail \<and> ''min'' \<in> set funcavail
   \<and> var_val ex_engine ex_tt ''pre'' ''median'' = Inr (Series [(2, Fin 5), (6, Fin 3)], [])
   \<and> var_val ex_engine ex_tt ''post'' ''min'' = Inr (Series [(2, Fin 3), (6, Fin 1)], [])
   \<and> var_pert ex_engine ex_tt ''median'' ''min'' = Inr (Series [(2, Fin (- 2)), (6, Fin (- 2))], [])
   \<and> fsub (Fin 1) (Fin 3) = Fin (- 2)"
proof -
  have i: "cp_detection_init (DatetimeIndex 10 (Some 600)) ex_tt ex_rr ex_opts = Inr (ex_engine, [])"
    by (simp add: ex_engine_def eval_defs)
  have m: "6 \<in> set (cp_index ex_engine)"
    by (simp add: ex_engine_def valid_engine_def)
  have l: "length ex_tt = length ex_tt" by simp
  have f: "''median'' \<in> set funcavail" "''min'' \<in> set funcavail"
    by (simp_all add: funcavail_def)
  have p: "var_val ex_engine ex_tt ''pre'' ''median'' = Inr (Series [(2, Fin 5), (6, Fin 3)], [])"
    by (simp add: query_defs ex_engine_def eval_defs)
  have q: "var_val ex_engine ex_tt ''post'' ''min'' = Inr (Series [(2, Fin 3), (6, Fin 1)], [])"
    by (simp add: query_defs ex_engine_def eval_defs)
  from perturbation_post_minus_pre [OF i m l f] p q
  have "var_pert ex_engine ex_tt ''median'' ''min''
          = Inr (Series (series_sub [(2, Fin 3), (6, Fin 1)] [(2, Fin 5), (6, Fin 3)]), [])"
    by auto
  then have r: "var_pert ex_engine ex_tt ''median'' ''min'' = Inr (Series [(2, Fin (- 2)), (6, Fin (- 2))], [])"
    by (simp add: series_sub_def fsub_def)
  have s: "fsub (Fin 1) (Fin 3) = Fin (- 2)" by (simp add: fsub_def)
  from i m l f p q r s show ?thesis by blast
qed

section \<open>Failed validation\<close>

text \<open>
  C8 at three inputs. A \<open>DatetimeIndex\<close> of three time stamps without an inferable
  frequency, with two series of three samples: the constructor returns an object without
  events, and every query that reaches \<open>var_time\<close> with a series of three samples reads
  \<open>self.data_avail_all\<close>, which was never assigned, and raises AttributeError. The same
  happens for a regular grid with a rainfall series of the wrong length. For an argument
  that is not a \<open>DatetimeIndex\<close> the length check of \<open>var_time\<close> fails first and the
  queries return the empty frame. That the constructor returns an object without events on
  every failed validation is lemma \<open>validation_failure_no_events\<close>.
\<close>

theorem failed_validation_query_raises:
  "cp_detection_init (DatetimeIndex 3 None) cx_series3 cx_series3 default_options
     = Inr (unset_engine (DatetimeIndex 3 None) 3 cx_series3 cx_series3, [NoRegularGrid])
   \<and> indices (unset_engine (DatetimeIndex 3 None) 3 cx_series3 cx_series3) = []
   \<and> number (unset_engine (DatetimeIndex 3 None) 3 cx_series3 cx_series3) = 0
   \<and> var_time (unset_engine (DatetimeIndex 3 None) 3 cx_series3 cx_series3) cx_series3
       = Inl AttributeError
   \<and> tt_time (unset_engine (DatetimeIndex 3 None) 3 cx_series3 cx_series3) = Inl AttributeError
   \<and> tt_pert (unset_engine (DatetimeIndex 3 None) 3 cx_series3 cx_series3) = Inl AttributeError
   \<and> var_val (unset_engine (DatetimeIndex 3 None) 3 cx_series3 cx_series3) cx_series3 ''all'' ''sum''
       = Inl AttributeError
   \<and> cp_detection_init (DatetimeIndex 3 (Some 600)) cx_series3 (cx_series3 @ cx_series3) default_options
     = Inr (unset_engine (DatetimeIndex 3 (Some 600)) 3 cx_series3 (cx_series3 @ cx_series3),
            [LengthMismatch ''RR''])
   \<and> tt_time (unset_engine (DatetimeIndex 3 (Some 600)) 3 cx_series3 (cx_series3 @ cx_series3))
       = Inl AttributeError
   \<and> cp_detection_init NoDatetimeIndex cx_series3 cx_series3 default_options
     = Inr (unset_engine NoDatetimeIndex (- 1) cx_series3 cx_series3, [NotDatetimeIndex])
   \<and> tt_time (unset_engine NoDatetimeIndex (- 1) cx_series3 cx_series3) = Inr (DataFrame [] [], [])"
  by (simp add: query_defs unset_engine_def cx_series3_def eval_defs)

end
